theory Spec2Isabelle
  imports Main "HOL-Library.Word"
begin

section \<open>Keyword types and match-list ids\<close>

text \<open>
  Modelled from the spec: the keyword enum is declared in \<open>detect.h\<close>, which is not among the
  sources. The seven content-bearing keyword types of the spec's buffer-context registry
  (section 4.3) keep the names \<open>detect-fast-pattern.c\<close> gives them; \<open>DETECT_KEYWORD n\<close>
  stands for every other member of the enum, by its number.
\<close>

datatype sm_type =
    DETECT_CONTENT
  | DETECT_URICONTENT
  | DETECT_AL_HTTP_CLIENT_BODY
  | DETECT_AL_HTTP_HEADER
  | DETECT_AL_HTTP_RAW_HEADER
  | DETECT_AL_HTTP_METHOD
  | DETECT_AL_HTTP_COOKIE
  | DETECT_KEYWORD nat

text \<open>
  Modelled from the spec: the \<open>DETECT_SM_LIST_*\<close> enum is declared in \<open>detect.h\<close> too. The
  seven lists of the supported buffer contexts keep their names; \<open>DETECT_SM_LIST n\<close> stands
  for every other list.
\<close>

datatype sm_list_id =
    DETECT_SM_LIST_PMATCH
  | DETECT_SM_LIST_UMATCH
  | DETECT_SM_LIST_HCBDMATCH
  | DETECT_SM_LIST_HHDMATCH
  | DETECT_SM_LIST_HRHDMATCH
  | DETECT_SM_LIST_HMDMATCH
  | DETECT_SM_LIST_HCDMATCH
  | DETECT_SM_LIST nat

section \<open>The fast-pattern support registry\<close>

text \<open>
  The two global singly linked lists \<open>sm_fp_support_smtype_list\<close> and
  \<open>sm_fp_support_smlist_list\<close>, head first; \<open>NULL\<close> is the empty list. \<open>heap_nodes\<close> is
  the number of list nodes \<open>malloc\<close> can still hand out: when it is 0, \<open>malloc\<close> returns
  \<open>NULL\<close> and the registration functions call \<open>exit(EXIT_FAILURE)\<close>, which is the result
  \<open>None\<close>.
\<close>

record fp_support =
  sm_fp_support_smtype_list :: "sm_type list"
  sm_fp_support_smlist_list :: "sm_list_id list"
  heap_nodes :: nat

definition fp_support_init :: "nat \<Rightarrow> fp_support" where
  "fp_support_init n =
     \<lparr>sm_fp_support_smtype_list = [], sm_fp_support_smlist_list = [], heap_nodes = n\<rparr>"

text \<open>The \<open>while (tmp != NULL)\<close> scan of either list: does a node hold the value?\<close>

fun fp_list_holds :: "'a list \<Rightarrow> 'a \<Rightarrow> bool" where
  "fp_list_holds [] v = False"
| "fp_list_holds (n # next) v = (if n = v then True else fp_list_holds next v)"

definition SupportFastPatternForSigMatchList :: "sm_list_id \<Rightarrow> fp_support \<Rightarrow> fp_support option" where
  "SupportFastPatternForSigMatchList list_id st =
     (if fp_list_holds (sm_fp_support_smlist_list st) list_id then Some st
      else if heap_nodes st = 0 then None
      else Some (st\<lparr>sm_fp_support_smlist_list := list_id # sm_fp_support_smlist_list st,
                     heap_nodes := heap_nodes st - 1\<rparr>))"

definition SupportFastPatternForSigMatchType :: "sm_type \<Rightarrow> fp_support \<Rightarrow> fp_support option" where
  "SupportFastPatternForSigMatchType smt st =
     (if fp_list_holds (sm_fp_support_smtype_list st) smt then Some st
      else if heap_nodes st = 0 then None
      else Some (st\<lparr>sm_fp_support_smtype_list := smt # sm_fp_support_smtype_list st,
                     heap_nodes := heap_nodes st - 1\<rparr>))"

text \<open>One (keyword type, list id) registration pair of \<open>SupportFastPatternForSigMatchTypes\<close>.\<close>

definition fp_register_pair :: "sm_type \<Rightarrow> sm_list_id \<Rightarrow> fp_support \<Rightarrow> fp_support option" where
  "fp_register_pair smt list_id st =
     (case SupportFastPatternForSigMatchType smt st of
        None \<Rightarrow> None
      | Some st' \<Rightarrow> SupportFastPatternForSigMatchList list_id st')"

text \<open>The seven pairs, in the order in which the source registers (and later looks up) them.\<close>

definition fp_pairs :: "(sm_type \<times> sm_list_id) list" where
  "fp_pairs =
     [(DETECT_CONTENT, DETECT_SM_LIST_PMATCH),
      (DETECT_URICONTENT, DETECT_SM_LIST_UMATCH),
      (DETECT_AL_HTTP_CLIENT_BODY, DETECT_SM_LIST_HCBDMATCH),
      (DETECT_AL_HTTP_HEADER, DETECT_SM_LIST_HHDMATCH),
      (DETECT_AL_HTTP_RAW_HEADER, DETECT_SM_LIST_HRHDMATCH),
      (DETECT_AL_HTTP_METHOD, DETECT_SM_LIST_HMDMATCH),
      (DETECT_AL_HTTP_COOKIE, DETECT_SM_LIST_HCDMATCH)]"

fun fp_register_pairs :: "(sm_type \<times> sm_list_id) list \<Rightarrow> fp_support \<Rightarrow> fp_support option" where
  "fp_register_pairs [] st = Some st"
| "fp_register_pairs ((smt, list_id) # ps) st =
     (case fp_register_pair smt list_id st of
        None \<Rightarrow> None
      | Some st' \<Rightarrow> fp_register_pairs ps st')"

definition SupportFastPatternForSigMatchTypes :: "fp_support \<Rightarrow> fp_support option" where
  "SupportFastPatternForSigMatchTypes st = fp_register_pairs fp_pairs st"

text \<open>Any sequence of calls of the three registration functions.\<close>

datatype fp_call =
    CallSigMatchList sm_list_id
  | CallSigMatchType sm_type
  | CallSigMatchTypes

fun fp_call_run :: "fp_call \<Rightarrow> fp_support \<Rightarrow> fp_support option" where
  "fp_call_run (CallSigMatchList list_id) st = SupportFastPatternForSigMatchList list_id st"
| "fp_call_run (CallSigMatchType smt) st = SupportFastPatternForSigMatchType smt st"
| "fp_call_run CallSigMatchTypes st = SupportFastPatternForSigMatchTypes st"

fun fp_calls_run :: "fp_call list \<Rightarrow> fp_support \<Rightarrow> fp_support option" where
  "fp_calls_run [] st = Some st"
| "fp_calls_run (c # cs) st =
     (case fp_call_run c st of None \<Rightarrow> None | Some st' \<Rightarrow> fp_calls_run cs st')"

definition fp_support_distinct :: "fp_support \<Rightarrow> bool" where
  "fp_support_distinct st =
     (distinct (sm_fp_support_smtype_list st) \<and> distinct (sm_fp_support_smlist_list st))"

section \<open>Content keywords and signatures\<close>

text \<open>
  Modelled from the spec: the bits of \<open>DetectContentData.flags\<close> (the spec's bitset on a
  ContentPattern, section 3). The masks are macros of \<open>detect-content.h\<close>, which is not among
  the sources; each is one bit, so the flags word is modelled as the set of the bits that are
  set: \<open>cd->flags & F\<close> is \<open>F \<in> flags cd\<close> and \<open>cd->flags |= F\<close> is
  \<open>insert F (flags cd)\<close>. The eight bits that \<open>detect-fast-pattern.c\<close> names keep their
  names; \<open>DETECT_CONTENT_BIT n\<close> is any other bit.
\<close>

datatype DetectContentFlag =
    DETECT_CONTENT_DISTANCE
  | DETECT_CONTENT_WITHIN
  | DETECT_CONTENT_OFFSET
  | DETECT_CONTENT_DEPTH
  | DETECT_CONTENT_FAST_PATTERN
  | DETECT_CONTENT_FAST_PATTERN_ONLY
  | DETECT_CONTENT_FAST_PATTERN_CHOP
  | DETECT_CONTENT_NEGATED
  | DETECT_CONTENT_BIT nat

text \<open>
  Modelled from the spec: the fields of \<open>DetectContentData\<close> that the fast-pattern code
  reads or writes. The struct is declared in \<open>detect-content.h\<close>, which is not among the
  sources; the spec gives a pattern 0..65535 bytes, so \<open>content_len\<close> and the two chop
  fields are 16 bits wide. \<open>content\<close> is the byte string.
\<close>

record DetectContentData =
  content :: string
  content_len :: "16 word"
  flags :: "DetectContentFlag set"
  fp_chop_offset :: "16 word"
  fp_chop_len :: "16 word"

text \<open>
  Modelled from the spec: a keyword node (\<open>SigMatch\<close> is declared in \<open>detect.h\<close>). \<open>idx\<close> is
  the keyword's position in the rule, the spec's declaration order; \<open>type\<close> is its keyword
  type; \<open>ctx\<close> is the \<open>void *\<close> that the fast-pattern code casts to
  \<open>DetectContentData *\<close>.
\<close>

record SigMatch =
  idx :: nat
  type :: sm_type
  ctx :: DetectContentData

text \<open>
  Modelled from the spec: a signature (\<open>Signature\<close> is declared in \<open>detect.h\<close>): its id, the
  number of keywords declared so far, and its keyword lists, one ordered sequence of keyword
  nodes for each buffer context. A list is kept head first; \<open>s->sm_lists_tail[l]\<close> is the
  last node, and is \<open>NULL\<close> exactly when the list is empty. A node is addressed by its list
  and its position in it.
\<close>

record Signature =
  sig_id :: nat
  sm_cnt :: nat
  sm_lists :: "sm_list_id \<Rightarrow> SigMatch list"

type_synonym sm_ptr = "sm_list_id \<times> nat"

definition sm_at :: "Signature \<Rightarrow> sm_ptr \<Rightarrow> SigMatch" where
  "sm_at s pm = sm_lists s (fst pm) ! snd pm"

text \<open>Writing through \<open>pm->ctx\<close>: the node at \<open>pm\<close> gets the content data \<open>cd\<close>.\<close>

definition ctx_write :: "Signature \<Rightarrow> sm_ptr \<Rightarrow> DetectContentData \<Rightarrow> Signature" where
  "ctx_write s pm cd =
     s\<lparr>sm_lists := (sm_lists s)
        (fst pm := (sm_lists s (fst pm))[snd pm := (sm_at s pm)\<lparr>ctx := cd\<rparr>])\<rparr>"

section \<open>Finding the keyword a modifier applies to\<close>

text \<open>
  \<open>SigMatchGetLastSMByType\<close> and \<open>SigMatchGetLastSMFromLists\<close> are defined in
  \<open>detect-parse.c\<close>, which is not among the sources; \<open>DetectFastPatternSetup\<close> calls the
  second. The spec binds a directive to the most recently declared content-bearing keyword
  before it (section 8, scenario 5).
\<close>

text \<open>
  Modelled from the spec: \<open>SigMatchGetLastSMByType\<close> (\<open>detect-parse.c\<close>), the position of
  the last node of a keyword type in one list, \<open>None\<close> for \<open>NULL\<close>.
\<close>

fun SigMatchGetLastSMByType :: "SigMatch list \<Rightarrow> sm_type \<Rightarrow> nat option" where
  "SigMatchGetLastSMByType [] t = None"
| "SigMatchGetLastSMByType (sm # rest) t =
     (case SigMatchGetLastSMByType rest t of
        Some i \<Rightarrow> Some (Suc i)
      | None \<Rightarrow> if type sm = t then Some 0 else None)"

text \<open>
  Modelled from the spec: the first loop of \<open>SigMatchGetLastSMFromLists\<close>, which collects,
  for each (keyword type, list) pair it was passed, the last node of that type in that list.
\<close>

fun sm_candidates :: "Signature \<Rightarrow> (sm_type \<times> sm_list_id) list \<Rightarrow> sm_ptr list" where
  "sm_candidates s [] = []"
| "sm_candidates s ((t, l) # ps) =
     (case SigMatchGetLastSMByType (sm_lists s l) t of
        None \<Rightarrow> sm_candidates s ps
      | Some i \<Rightarrow> (l, i) # sm_candidates s ps)"

text \<open>
  Modelled from the spec: the choice \<open>SigMatchGetLastSMFromLists\<close> makes among the nodes
  collected, the one declared last (largest \<open>idx\<close>; the earlier pair wins a tie).
\<close>

fun sm_newest :: "Signature \<Rightarrow> sm_ptr list \<Rightarrow> sm_ptr option" where
  "sm_newest s [] = None"
| "sm_newest s (c # cs) =
     (case sm_newest s cs of
        None \<Rightarrow> Some c
      | Some d \<Rightarrow> if idx (sm_at s c) < idx (sm_at s d) then Some d else Some c)"

text \<open>
  Modelled from the spec: \<open>SigMatchGetLastSMFromLists(s, args, ...)\<close> (\<open>detect-parse.c\<close>).
  The function is variadic: \<open>args\<close> is the number of variadic arguments it reads, two for
  each (keyword type, list tail) pair, so it looks at the first \<open>args div 2\<close> pairs. The
  result is the most recently declared node among those it finds, \<open>None\<close> (for \<open>NULL\<close>)
  when it finds none.
\<close>

definition SigMatchGetLastSMFromLists ::
    "Signature \<Rightarrow> nat \<Rightarrow> (sm_type \<times> sm_list_id) list \<Rightarrow> sm_ptr option" where
  "SigMatchGetLastSMFromLists s args pairs = sm_newest s (sm_candidates s (take (args div 2) pairs))"

section \<open>The argument of the directive\<close>

text \<open>
  \<open>DETECT_FAST_PATTERN_REGEX\<close> is
  \<^verbatim>\<open>^(\s*only\s*)|\s*([0-9]+)\s*,\s*([0-9]+)\s*$\<close>
  compiled with no options. Alternation binds weakest: the first alternative is
  \<^verbatim>\<open>^(\s*only\s*)\<close>, anchored at the start only, and the second is
  \<^verbatim>\<open>\s*([0-9]+)\s*,\s*([0-9]+)\s*$\<close>, anchored at the end only. \<open>\s\<close> is space, tab,
  line feed, form feed and carriage return. No two adjacent pieces of either alternative can
  match the same character, so the greedy match is the only one and no backtracking is needed.
\<close>

definition pcre_space :: "char \<Rightarrow> bool" where
  "pcre_space c = (c \<in> set [CHR '' '', CHR 0x09, CHR 0x0A, CHR 0x0C, CHR 0x0D])"

definition pcre_digit :: "char \<Rightarrow> bool" where
  "pcre_digit c = (c \<in> set ''0123456789'')"

text \<open>The first alternative at the start of the subject: capture group 1, if it matches.\<close>

definition match_only :: "string \<Rightarrow> string option" where
  "match_only arg =
     (let rest = dropWhile pcre_space arg in
      if take 4 rest = ''only''
      then Some (takeWhile pcre_space arg @ ''only'' @ takeWhile pcre_space (drop 4 rest))
      else None)"

text \<open>The second alternative at the start of \<open>sub\<close>: the whole match and groups 2 and 3.\<close>

definition match_chop_at :: "string \<Rightarrow> (string \<times> string \<times> string) option" where
  "match_chop_at sub =
     (let r1 = dropWhile pcre_space sub;
          g2 = takeWhile pcre_digit r1;
          r2 = dropWhile pcre_space (dropWhile pcre_digit r1)
      in if g2 = [] then None
         else case r2 of
           [] \<Rightarrow> None
         | c # r3 \<Rightarrow>
             if c \<noteq> CHR '','' then None
             else let r4 = dropWhile pcre_space r3;
                      g3 = takeWhile pcre_digit r4;
                      r5 = dropWhile pcre_digit r4
                  in if g3 = [] then None
                     else if list_all pcre_space r5 then Some (sub, g2, g3)
                     else None)"

text \<open>The unanchored search: the second alternative at each start offset, leftmost first.\<close>

fun search_chop :: "string \<Rightarrow> (string \<times> string \<times> string) option" where
  "search_chop [] = match_chop_at []"
| "search_chop (c # cs) =
     (case match_chop_at (c # cs) of
        Some m \<Rightarrow> Some m
      | None \<Rightarrow> search_chop cs)"

text \<open>
  \<open>pcre_exec(parse_regex, parse_regex_study, arg, strlen(arg), 0, 0, ov, MAX_SUBSTRINGS)\<close>:
  the return value (one more than the highest group that matched, \<open>-1\<close> for no match) and
  the captured substrings by group number, group 0 being the whole match. At offset 0 the
  first alternative is tried before the second.
\<close>

definition pcre_exec :: "string \<Rightarrow> int \<times> string list" where
  "pcre_exec arg =
     (case match_only arg of
        Some g1 \<Rightarrow> (2, [g1, g1])
      | None \<Rightarrow>
          (case search_chop arg of
             Some (whole, g2, g3) \<Rightarrow> (4, [whole, [], g2, g3])
           | None \<Rightarrow> (- 1, [])))"

text \<open>\<open>pcre_get_substring\<close>: \<open>None\<close> is a negative result (no such group).\<close>

definition pcre_get_substring :: "string list \<Rightarrow> nat \<Rightarrow> string option" where
  "pcre_get_substring ov n = (if n < length ov then Some (ov ! n) else None)"

text \<open>
  \<open>atoi\<close> on the digits a group captured. The result is a C \<open>int\<close>, 32 bits, read with
  \<open>sint\<close>. It is the decimal value when that is at most \<open>INT_MAX\<close>; beyond that C leaves
  the result of \<open>atoi\<close> undefined, and this model wraps.
\<close>

definition digit_value :: "char \<Rightarrow> nat" where
  "digit_value c = of_char c - 48"

definition decimal_value :: "string \<Rightarrow> nat" where
  "decimal_value ds = foldl (\<lambda>acc c. 10 * acc + digit_value c) 0 (takeWhile pcre_digit ds)"

definition atoi :: "string \<Rightarrow> 32 word" where
  "atoi ds = of_nat (decimal_value ds)"

section \<open>The directive\<close>

definition has_relative_modifier :: "DetectContentData \<Rightarrow> bool" where
  "has_relative_modifier cd =
     (DETECT_CONTENT_DISTANCE \<in> flags cd \<or>
      DETECT_CONTENT_WITHIN \<in> flags cd \<or>
      DETECT_CONTENT_OFFSET \<in> flags cd \<or>
      DETECT_CONTENT_DEPTH \<in> flags cd)"

text \<open>
  \<open>DetectFastPatternSetup\<close> from \<open>cd = pm->ctx\<close> on: everything it does there it does to
  \<open>*cd\<close>. The result is the return value (0 or \<open>-1\<close>) and the content data afterwards.
  C's \<open>int\<close> arithmetic is 32-bit two's complement: \<open>+\<close> on \<open>32 word\<close>, read with \<open>sint\<close>;
  \<open>cd->content_len\<close> is promoted to \<open>int\<close>; the stores to the 16-bit chop fields truncate.
  The second limit test compares \<open>offset\<close> once more, as the source does.
\<close>

definition DetectFastPatternSetup_cd :: "DetectContentData \<Rightarrow> string option \<Rightarrow> int \<times> DetectContentData" where
  "DetectFastPatternSetup_cd cd arg =
     (if DETECT_CONTENT_NEGATED \<in> flags cd \<and> has_relative_modifier cd then (- 1, cd)
      else if arg = None \<or> arg = Some [] then
        (0, cd\<lparr>flags := insert DETECT_CONTENT_FAST_PATTERN (flags cd)\<rparr>)
      else
        let (ret, ov) = pcre_exec (the arg) in
        if ret = 2 then
          if DETECT_CONTENT_NEGATED \<in> flags cd \<or> has_relative_modifier cd then (- 1, cd)
          else (0, cd\<lparr>flags := insert DETECT_CONTENT_FAST_PATTERN
                                  (insert DETECT_CONTENT_FAST_PATTERN_ONLY (flags cd))\<rparr>)
        else if ret = 4 then
          (case pcre_get_substring ov 2 of
             None \<Rightarrow> (- 1, cd)
           | Some arg_substr \<Rightarrow>
               let offset = atoi arg_substr in
               if 65535 < sint offset then (- 1, cd)
               else
                 (case pcre_get_substring ov 3 of
                    None \<Rightarrow> (- 1, cd)
                  | Some arg_substr \<Rightarrow>
                      let len = atoi arg_substr in
                      if 65535 < sint offset then (- 1, cd)
                      else if 65535 < sint (offset + len) then (- 1, cd)
                      else if uint (content_len cd) < sint (offset + len) then (- 1, cd)
                      else
                        (0, cd\<lparr>fp_chop_offset := ucast offset,
                                fp_chop_len := ucast len,
                                flags := insert DETECT_CONTENT_FAST_PATTERN
                                  (insert DETECT_CONTENT_FAST_PATTERN_CHOP (flags cd))\<rparr>)))
        else (- 1, cd))"

text \<open>
  \<open>DetectFastPatternSetup(de_ctx, s, arg)\<close>: the return value and the signature afterwards
  (\<open>de_ctx\<close> is not used). The lookup is passed 12 as its argument count, followed by the
  seven pairs, as in the source.
\<close>

definition DetectFastPatternSetup :: "Signature \<Rightarrow> string option \<Rightarrow> int \<times> Signature" where
  "DetectFastPatternSetup s arg =
     (if sm_lists s DETECT_SM_LIST_PMATCH = [] \<and>
         sm_lists s DETECT_SM_LIST_UMATCH = [] \<and>
         sm_lists s DETECT_SM_LIST_HCBDMATCH = [] \<and>
         sm_lists s DETECT_SM_LIST_HHDMATCH = [] \<and>
         sm_lists s DETECT_SM_LIST_HRHDMATCH = [] \<and>
         sm_lists s DETECT_SM_LIST_HMDMATCH = [] \<and>
         sm_lists s DETECT_SM_LIST_HCDMATCH = [] then (- 1, s)
      else
        case SigMatchGetLastSMFromLists s 12 fp_pairs of
          None \<Rightarrow> (- 1, s)
        | Some pm \<Rightarrow>
            (case DetectFastPatternSetup_cd (ctx (sm_at s pm)) arg of
               (r, cd) \<Rightarrow> (r, ctx_write s pm cd)))"

text \<open>The keyword the directive applies to: the lookup as \<open>DetectFastPatternSetup\<close> calls it.\<close>

definition fast_pattern_target :: "Signature \<Rightarrow> sm_ptr option" where
  "fast_pattern_target s = SigMatchGetLastSMFromLists s 12 fp_pairs"

section \<open>Loading a rule\<close>

text \<open>
  \<open>SigInit\<close> (\<open>detect-parse.c\<close>), \<open>DetectContentSetup\<close> (\<open>detect-content.c\<close>) and the setup
  functions of \<open>distance\<close>, \<open>within\<close>, \<open>offset\<close> and \<open>depth\<close> are not among the sources;
  the unit tests of \<open>detect-fast-pattern.c\<close> call them through \<open>SigInit\<close>.
\<close>

text \<open>
  Modelled from the spec: the options of a rule that the claims and the unit tests combine
  with the directive: \<open>content:"bytes"\<close> or, negated, \<open>content:!"bytes"\<close>;
  \<open>fast_pattern\<close> with its argument (\<open>None\<close> for the bare form); and the four relative
  modifiers (their numbers play no part here).
\<close>

datatype rule_option =
    OptContent bool string
  | OptFastPattern "string option"
  | OptDistance
  | OptWithin
  | OptOffset
  | OptDepth

text \<open>Modelled from the spec: the signature before its first option, with every list empty.\<close>

definition SigAlloc :: "nat \<Rightarrow> Signature" where
  "SigAlloc sid = \<lparr>sig_id = sid, sm_cnt = 0, sm_lists = (\<lambda>l. [])\<rparr>"

text \<open>
  Modelled from the spec: \<open>DetectContentSetup\<close> (\<open>detect-content.c\<close>). A \<open>content\<close> option
  appends a content keyword, negated or not, to the payload list; it is the keyword declared
  next, and it has no modifier and no fast-pattern flag yet. The spec allows 0..65535 bytes.
\<close>

definition DetectContentSetup :: "Signature \<Rightarrow> bool \<Rightarrow> string \<Rightarrow> int \<times> Signature" where
  "DetectContentSetup s negated bytes =
     (if 65535 < length bytes then (- 1, s)
      else
        (0, s\<lparr>sm_cnt := Suc (sm_cnt s),
              sm_lists := (sm_lists s)
                (DETECT_SM_LIST_PMATCH := sm_lists s DETECT_SM_LIST_PMATCH @
                   [\<lparr>idx = sm_cnt s, type = DETECT_CONTENT,
                     ctx = \<lparr>content = bytes, content_len = of_nat (length bytes),
                            flags = (if negated then {DETECT_CONTENT_NEGATED} else {}),
                            fp_chop_offset = 0, fp_chop_len = 0\<rparr>\<rparr>])\<rparr>))"

text \<open>
  Modelled from the spec: the setup functions of \<open>distance\<close>, \<open>within\<close>, \<open>offset\<close> and
  \<open>depth\<close> (\<open>detect-distance.c\<close> and its siblings), as far as the flags go. The modifier
  applies to the most recently declared content-bearing keyword. By the spec's data model
  (section 3) a pattern flagged \<open>fast_pattern:only\<close> carries no relative modifier, and by
  section 4.2, step 3, a negated pattern that a \<open>fast_pattern\<close> directive targets carries
  none either: in both cases the modifier is refused. Otherwise its flag is set.
\<close>

definition DetectModifierSetup :: "DetectContentFlag \<Rightarrow> Signature \<Rightarrow> int \<times> Signature" where
  "DetectModifierSetup m s =
     (case SigMatchGetLastSMFromLists s 14 fp_pairs of
        None \<Rightarrow> (- 1, s)
      | Some pm \<Rightarrow>
          if DETECT_CONTENT_FAST_PATTERN_ONLY \<in> flags (ctx (sm_at s pm)) then (- 1, s)
          else if DETECT_CONTENT_NEGATED \<in> flags (ctx (sm_at s pm)) \<and>
                  DETECT_CONTENT_FAST_PATTERN \<in> flags (ctx (sm_at s pm)) then (- 1, s)
          else (0, ctx_write s pm
                     ((ctx (sm_at s pm))\<lparr>flags := insert m (flags (ctx (sm_at s pm)))\<rparr>)))"

text \<open>Modelled from the spec: the setup function of each option, as \<open>SigInit\<close> dispatches it.\<close>

fun option_setup :: "rule_option \<Rightarrow> Signature \<Rightarrow> int \<times> Signature" where
  "option_setup (OptContent negated bytes) s = DetectContentSetup s negated bytes"
| "option_setup (OptFastPattern arg) s = DetectFastPatternSetup s arg"
| "option_setup OptDistance s = DetectModifierSetup DETECT_CONTENT_DISTANCE s"
| "option_setup OptWithin s = DetectModifierSetup DETECT_CONTENT_WITHIN s"
| "option_setup OptOffset s = DetectModifierSetup DETECT_CONTENT_OFFSET s"
| "option_setup OptDepth s = DetectModifierSetup DETECT_CONTENT_DEPTH s"

text \<open>
  Modelled from the spec: the loop of \<open>SigInit\<close> over the options of the rule. It stops at
  the first setup function that fails (a negative return) and gives up the signature.
\<close>

fun options_setup :: "rule_option list \<Rightarrow> Signature \<Rightarrow> Signature option" where
  "options_setup [] s = Some s"
| "options_setup (opt # opts) s =
     (case option_setup opt s of
        (r, s') \<Rightarrow> if r < 0 then None else options_setup opts s')"

text \<open>
  Modelled from the spec: \<open>SigInit\<close> (\<open>detect-parse.c\<close>) on the options of a rule with the
  given id. \<open>None\<close> is \<open>NULL\<close>: the signature failed to load and \<open>de_ctx->sig_list\<close> stays
  \<open>NULL\<close>.
\<close>

definition SigInit :: "nat \<Rightarrow> rule_option list \<Rightarrow> Signature option" where
  "SigInit sid opts = options_setup opts (SigAlloc sid)"

section \<open>Predicates of the claims\<close>

definition is_relative_modifier :: "rule_option \<Rightarrow> bool" where
  "is_relative_modifier opt = (opt \<in> set [OptDistance, OptWithin, OptOffset, OptDepth])"

text \<open>Which keywords of a list carry \<open>DETECT_CONTENT_FAST_PATTERN\<close>, in list order.\<close>

definition fast_pattern_marks :: "Signature \<Rightarrow> sm_list_id \<Rightarrow> bool list" where
  "fast_pattern_marks s l =
     map (\<lambda>sm. DETECT_CONTENT_FAST_PATTERN \<in> flags (ctx sm)) (sm_lists s l)"

text \<open>The chop bound of one pattern.\<close>

definition chop_in_bounds :: "DetectContentData \<Rightarrow> bool" where
  "chop_in_bounds cd =
     (if DETECT_CONTENT_FAST_PATTERN_CHOP \<in> flags cd
      then unat (fp_chop_offset cd) + unat (fp_chop_len cd) \<le> min 65535 (unat (content_len cd))
      else True)"

text \<open>No list of the seven holds a keyword of the list's content-bearing type.\<close>

definition no_content_keyword :: "Signature \<Rightarrow> bool" where
  "no_content_keyword s =
     list_all (\<lambda>(t, l). list_all (\<lambda>sm. type sm \<noteq> t) (sm_lists s l)) fp_pairs"

text \<open>
  Signatures for concrete inputs: \<open>payload_keyword i bytes fl\<close> is the \<open>content\<close> keyword
  declared as the rule's option number \<open>i\<close>, with the flags \<open>fl\<close> and no chop set, and
  \<open>payload_signature sms\<close> is the signature number 1 whose payload list holds \<open>sms\<close> and whose
  other lists are empty.
\<close>

definition payload_keyword :: "nat \<Rightarrow> string \<Rightarrow> DetectContentFlag set \<Rightarrow> SigMatch" where
  "payload_keyword i bytes fl =
     \<lparr>idx = i, type = DETECT_CONTENT,
      ctx = \<lparr>content = bytes, content_len = of_nat (length bytes), flags = fl,
             fp_chop_offset = 0, fp_chop_len = 0\<rparr>\<rparr>"

definition payload_signature :: "SigMatch list \<Rightarrow> Signature" where
  "payload_signature sms =
     \<lparr>sig_id = 1, sm_cnt = length sms,
      sm_lists = (\<lambda>l. [])(DETECT_SM_LIST_PMATCH := sms)\<rparr>"

text \<open>
  The rule \<open>content:one; content:two; http_cookie; fast_pattern;\<close> at the moment the
  directive is set up: \<open>http_cookie\<close> has moved the second keyword to the cookie list, as
  the unit tests read it back from \<open>sm_lists_tail[DETECT_SM_LIST_HCDMATCH]\<close>.
\<close>

definition cookie_signature :: Signature where
  "cookie_signature =
     \<lparr>sig_id = 1, sm_cnt = 2,
      sm_lists = (\<lambda>l. [])
        (DETECT_SM_LIST_PMATCH := [payload_keyword 0 ''one'' {}],
         DETECT_SM_LIST_HCDMATCH := [(payload_keyword 1 ''two'' {})\<lparr>type := DETECT_AL_HTTP_COOKIE\<rparr>])\<rparr>"

text \<open>
  An invariant of the rules above, which have payload keywords only: every list but the
  payload list is empty.
\<close>

definition payload_only :: "Signature \<Rightarrow> bool" where
  "payload_only s = (\<forall>l. l \<noteq> DETECT_SM_LIST_PMATCH \<longrightarrow> sm_lists s l = [])"

section \<open>Building and searching the pattern matcher\<close>

text \<open>
  The MPM build and search stages (\<open>SigGroupBuild\<close>, \<open>PacketPatternSearch\<close>,
  \<open>detect-engine-mpm.c\<close>) are not among the sources; only the unit tests call them.
\<close>

text \<open>
  Modelled from the spec: the search needle of a selected pattern (section 4.4), the bytes
  \<open>[offset, offset + length)\<close> when the pattern is chopped and all of them otherwise.
\<close>

definition fp_needle :: "DetectContentData \<Rightarrow> string" where
  "fp_needle cd =
     (if DETECT_CONTENT_FAST_PATTERN_CHOP \<in> flags cd
      then take (unat (fp_chop_len cd)) (drop (unat (fp_chop_offset cd)) (content cd))
      else content cd)"

text \<open>Modelled from the spec: the needle occurs literally at the start of the buffer.\<close>

fun starts_with :: "string \<Rightarrow> string \<Rightarrow> bool" where
  "starts_with [] buf = True"
| "starts_with (c # cs) [] = False"
| "starts_with (c # cs) (b # bs) = (if c = b then starts_with cs bs else False)"

text \<open>
  Modelled from the spec: the needle occurs literally somewhere in the buffer (section 4.5);
  the scan tries each offset in turn.
\<close>

fun occurs_in :: "string \<Rightarrow> string \<Rightarrow> bool" where
  "occurs_in needle [] = starts_with needle []"
| "occurs_in needle (b # bs) = (if starts_with needle (b # bs) then True else occurs_in needle bs)"

text \<open>
  Modelled from the spec: the selected patterns of a signature in one context, those
  flagged \<open>FAST_PATTERN\<close>.
\<close>

definition selected_patterns :: "Signature \<Rightarrow> sm_list_id \<Rightarrow> SigMatch list" where
  "selected_patterns s l =
     filter (\<lambda>sm. DETECT_CONTENT_FAST_PATTERN \<in> flags (ctx sm)) (sm_lists s l)"

text \<open>
  Modelled from the spec: a matcher instance (section 3) holds the needles of one context,
  each tagged with the id of the signature that owns it.
\<close>

type_synonym MpmMatcherInstance = "(string \<times> nat) list"

text \<open>Modelled from the spec: the needles one signature contributes to a context's matcher.\<close>

fun selected_needles :: "nat \<Rightarrow> SigMatch list \<Rightarrow> MpmMatcherInstance" where
  "selected_needles sid [] = []"
| "selected_needles sid (sm # sms) =
     (if DETECT_CONTENT_FAST_PATTERN \<in> flags (ctx sm)
      then (fp_needle (ctx sm), sid) # selected_needles sid sms
      else selected_needles sid sms)"

text \<open>
  Modelled from the spec: \<open>Build\<close> (section 4.4) for one context: for every signature of the
  group and every selected pattern of the context's list, the needle tagged with the
  signature's id.
\<close>

fun Build :: "Signature list \<Rightarrow> sm_list_id \<Rightarrow> MpmMatcherInstance" where
  "Build [] l = []"
| "Build (s # grp) l = selected_needles (sig_id s) (sm_lists s l) @ Build grp l"

text \<open>
  Modelled from the spec: \<open>Search\<close> (section 4.5), the ids of the needles that occur in the
  buffer.
\<close>

fun Search :: "MpmMatcherInstance \<Rightarrow> string \<Rightarrow> nat set" where
  "Search [] buf = {}"
| "Search ((needle, sid) # m) buf =
     (if occurs_in needle buf then insert sid (Search m buf) else Search m buf)"

section \<open>Registry: proofs\<close>

lemma fp_list_holds_set: "fp_list_holds xs v = (v \<in> set xs)"
  by (induction xs) auto

lemma smlist_keeps_distinct:
  assumes "fp_support_distinct st" and "SupportFastPatternForSigMatchList list_id st = Some st'"
  shows "fp_support_distinct st'"
  using assms
  by (auto simp: SupportFastPatternForSigMatchList_def fp_support_distinct_def fp_list_holds_set
      split: if_splits)

lemma smtype_keeps_distinct:
  assumes "fp_support_distinct st" and "SupportFastPatternForSigMatchType smt st = Some st'"
  shows "fp_support_distinct st'"
  using assms
  by (auto simp: SupportFastPatternForSigMatchType_def fp_support_distinct_def fp_list_holds_set
      split: if_splits)

lemma pair_keeps_distinct:
  assumes "fp_support_distinct st" and "fp_register_pair smt list_id st = Some st'"
  shows "fp_support_distinct st'"
  using assms
  by (auto simp: fp_register_pair_def split: option.splits
      dest: smtype_keeps_distinct smlist_keeps_distinct)

lemma pairs_keep_distinct:
  "fp_support_distinct st \<Longrightarrow> fp_register_pairs ps st = Some st' \<Longrightarrow> fp_support_distinct st'"
proof (induction ps arbitrary: st)
  case Nil
  then show ?case by simp
next
  case (Cons p ps)
  obtain smt list_id where p: "p = (smt, list_id)" by (cases p)
  from Cons.prems(2) p obtain st1 where
    one: "fp_register_pair smt list_id st = Some st1" and rest: "fp_register_pairs ps st1 = Some st'"
    by (auto split: option.splits)
  from pair_keeps_distinct [OF Cons.prems(1) one] rest show ?case
    by (rule Cons.IH)
qed

lemma call_keeps_distinct:
  "fp_support_distinct st \<Longrightarrow> fp_call_run c st = Some st' \<Longrightarrow> fp_support_distinct st'"
  by (cases c)
    (auto simp: SupportFastPatternForSigMatchTypes_def
      dest: smlist_keeps_distinct smtype_keeps_distinct pairs_keep_distinct)

lemma calls_keep_distinct:
  "fp_support_distinct st \<Longrightarrow> fp_calls_run cs st = Some st' \<Longrightarrow> fp_support_distinct st'"
proof (induction cs arbitrary: st)
  case Nil
  then show ?case by simp
next
  case (Cons c cs)
  from Cons.prems(2) obtain st1 where
    one: "fp_call_run c st = Some st1" and rest: "fp_calls_run cs st1 = Some st'"
    by (auto split: option.splits)
  from call_keeps_distinct [OF Cons.prems(1) one] rest show ?case
    by (rule Cons.IH)
qed

lemma fp_support_init_distinct: "fp_support_distinct (fp_support_init n)"
  by (simp add: fp_support_distinct_def fp_support_init_def)

text \<open>
  Claim C10. Registration is idempotent and duplicate-free: registering a list id, or a
  keyword type, that the registry already holds returns the registry unchanged (and does not
  allocate); and after any sequence of calls of the three registration functions that starts
  from the empty registry, no keyword type and no list id occurs twice.
\<close>

theorem registration_idempotent_and_duplicate_free:
  "(list_id \<in> set (sm_fp_support_smlist_list st) \<longrightarrow>
      SupportFastPatternForSigMatchList list_id st = Some st) \<and>
   (smt \<in> set (sm_fp_support_smtype_list st) \<longrightarrow>
      SupportFastPatternForSigMatchType smt st = Some st) \<and>
   (fp_calls_run cs (fp_support_init n) = Some st' \<longrightarrow>
      distinct (sm_fp_support_smtype_list st') \<and> distinct (sm_fp_support_smlist_list st'))"
proof (intro conjI impI)
  assume "list_id \<in> set (sm_fp_support_smlist_list st)"
  then show "SupportFastPatternForSigMatchList list_id st = Some st"
    by (simp add: SupportFastPatternForSigMatchList_def fp_list_holds_set)
next
  assume "smt \<in> set (sm_fp_support_smtype_list st)"
  then show "SupportFastPatternForSigMatchType smt st = Some st"
    by (simp add: SupportFastPatternForSigMatchType_def fp_list_holds_set)
next
  assume run: "fp_calls_run cs (fp_support_init n) = Some st'"
  have "fp_support_distinct st'"
    using fp_support_init_distinct run by (rule calls_keep_distinct)
  then show "distinct (sm_fp_support_smtype_list st')"
    and "distinct (sm_fp_support_smlist_list st')"
    by (simp_all add: fp_support_distinct_def)
qed

theorem registration_idempotent_and_duplicate_free_witness:
  "DETECT_SM_LIST_PMATCH \<in> set [DETECT_SM_LIST_UMATCH, DETECT_SM_LIST_PMATCH] \<and>
   SupportFastPatternForSigMatchList DETECT_SM_LIST_PMATCH
     \<lparr>sm_fp_support_smtype_list = [DETECT_CONTENT],
      sm_fp_support_smlist_list = [DETECT_SM_LIST_UMATCH, DETECT_SM_LIST_PMATCH], heap_nodes = 0\<rparr> =
   Some \<lparr>sm_fp_support_smtype_list = [DETECT_CONTENT],
      sm_fp_support_smlist_list = [DETECT_SM_LIST_UMATCH, DETECT_SM_LIST_PMATCH], heap_nodes = 0\<rparr> \<and>
   DETECT_CONTENT \<in> set [DETECT_CONTENT] \<and>
   SupportFastPatternForSigMatchType DETECT_CONTENT
     \<lparr>sm_fp_support_smtype_list = [DETECT_CONTENT],
      sm_fp_support_smlist_list = [DETECT_SM_LIST_UMATCH, DETECT_SM_LIST_PMATCH], heap_nodes = 0\<rparr> =
   Some \<lparr>sm_fp_support_smtype_list = [DETECT_CONTENT],
      sm_fp_support_smlist_list = [DETECT_SM_LIST_UMATCH, DETECT_SM_LIST_PMATCH], heap_nodes = 0\<rparr> \<and>
   fp_calls_run [CallSigMatchTypes, CallSigMatchTypes, CallSigMatchList DETECT_SM_LIST_PMATCH]
       (fp_support_init 14) =
     Some \<lparr>sm_fp_support_smtype_list =
        [DETECT_AL_HTTP_COOKIE, DETECT_AL_HTTP_METHOD, DETECT_AL_HTTP_RAW_HEADER,
         DETECT_AL_HTTP_HEADER, DETECT_AL_HTTP_CLIENT_BODY, DETECT_URICONTENT, DETECT_CONTENT],
       sm_fp_support_smlist_list =
        [DETECT_SM_LIST_HCDMATCH, DETECT_SM_LIST_HMDMATCH, DETECT_SM_LIST_HRHDMATCH,
         DETECT_SM_LIST_HHDMATCH, DETECT_SM_LIST_HCBDMATCH, DETECT_SM_LIST_UMATCH,
         DETECT_SM_LIST_PMATCH],
       heap_nodes = 0\<rparr> \<and>
   distinct [DETECT_AL_HTTP_COOKIE, DETECT_AL_HTTP_METHOD, DETECT_AL_HTTP_RAW_HEADER,
         DETECT_AL_HTTP_HEADER, DETECT_AL_HTTP_CLIENT_BODY, DETECT_URICONTENT, DETECT_CONTENT] \<and>
   distinct [DETECT_SM_LIST_HCDMATCH, DETECT_SM_LIST_HMDMATCH, DETECT_SM_LIST_HRHDMATCH,
         DETECT_SM_LIST_HHDMATCH, DETECT_SM_LIST_HCBDMATCH, DETECT_SM_LIST_UMATCH,
         DETECT_SM_LIST_PMATCH]"
  using registration_idempotent_and_duplicate_free
    [of DETECT_SM_LIST_PMATCH
      "\<lparr>sm_fp_support_smtype_list = [DETECT_CONTENT],
      sm_fp_support_smlist_list = [DETECT_SM_LIST_UMATCH, DETECT_SM_LIST_PMATCH], heap_nodes = 0\<rparr>"
      DETECT_CONTENT
      "[CallSigMatchTypes, CallSigMatchTypes, CallSigMatchList DETECT_SM_LIST_PMATCH]" 14
      "\<lparr>sm_fp_support_smtype_list =
        [DETECT_AL_HTTP_COOKIE, DETECT_AL_HTTP_METHOD, DETECT_AL_HTTP_RAW_HEADER,
         DETECT_AL_HTTP_HEADER, DETECT_AL_HTTP_CLIENT_BODY, DETECT_URICONTENT, DETECT_CONTENT],
       sm_fp_support_smlist_list =
        [DETECT_SM_LIST_HCDMATCH, DETECT_SM_LIST_HMDMATCH, DETECT_SM_LIST_HRHDMATCH,
         DETECT_SM_LIST_HHDMATCH, DETECT_SM_LIST_HCBDMATCH, DETECT_SM_LIST_UMATCH,
         DETECT_SM_LIST_PMATCH],
       heap_nodes = 0\<rparr>"]
  by (simp add: SupportFastPatternForSigMatchTypes_def fp_pairs_def fp_register_pair_def
      SupportFastPatternForSigMatchList_def SupportFastPatternForSigMatchType_def fp_support_init_def)

section \<open>The directive: auxiliary facts\<close>

lemma ctx_write_same: "ctx_write s pm (ctx (sm_at s pm)) = s"
  by (simp add: ctx_write_def sm_at_def)

lemma last_by_type_None:
  "(SigMatchGetLastSMByType xs t = None) = (\<forall>sm \<in> set xs. type sm \<noteq> t)"
  by (induction xs) (auto split: option.splits)

lemma last_by_type_Some:
  "SigMatchGetLastSMByType xs t = Some i \<Longrightarrow> i < length xs \<and> type (xs ! i) = t"
  by (induction xs arbitrary: i) (auto split: option.splits if_splits)

lemma last_by_type_snoc:
  "type sm = t \<Longrightarrow> SigMatchGetLastSMByType (xs @ [sm]) t = Some (length xs)"
  by (induction xs) auto

lemma candidates_valid:
  "pm \<in> set (sm_candidates s ps) \<Longrightarrow> snd pm < length (sm_lists s (fst pm))"
  by (induction s ps rule: sm_candidates.induct)
    (auto split: option.splits dest: last_by_type_Some)

lemma candidates_none:
  "list_all (\<lambda>(t, l). list_all (\<lambda>sm. type sm \<noteq> t) (sm_lists s l)) ps \<Longrightarrow> sm_candidates s ps = []"
  by (induction s ps rule: sm_candidates.induct)
    (auto simp: last_by_type_None list_all_iff split: option.splits)

lemma newest_in: "sm_newest s cs = Some pm \<Longrightarrow> pm \<in> set cs"
  by (induction cs arbitrary: pm) (auto split: option.splits if_splits)

lemma lookup_valid:
  "SigMatchGetLastSMFromLists s args ps = Some pm \<Longrightarrow> snd pm < length (sm_lists s (fst pm))"
  unfolding SigMatchGetLastSMFromLists_def
  by (blast dest: newest_in candidates_valid)

lemma list_all_take: "list_all P xs \<Longrightarrow> list_all P (take n xs)"
  by (auto simp: list_all_iff dest: in_set_takeD)

lemma lookup_none:
  "no_content_keyword s \<Longrightarrow> SigMatchGetLastSMFromLists s args fp_pairs = None"
  unfolding SigMatchGetLastSMFromLists_def no_content_keyword_def
  by (simp add: candidates_none list_all_take)

lemma setup_cd_cases:
  "DetectFastPatternSetup_cd cd arg = (r, cd') \<Longrightarrow>
     (r = - 1 \<and> cd' = cd) \<or>
     (r = 0 \<and> DETECT_CONTENT_FAST_PATTERN \<in> flags cd' \<and> flags cd \<subseteq> flags cd' \<and>
        content cd' = content cd \<and> content_len cd' = content_len cd)"
  by (auto simp: DetectFastPatternSetup_cd_def Let_def split: if_splits option.splits prod.splits)

lemma setup_cases:
  assumes "DetectFastPatternSetup s arg = (r, s')"
  shows "(r = - 1 \<and> s' = s) \<or>
     (r = 0 \<and> (\<exists>pm cd'. SigMatchGetLastSMFromLists s 12 fp_pairs = Some pm \<and>
         DetectFastPatternSetup_cd (ctx (sm_at s pm)) arg = (0, cd') \<and> s' = ctx_write s pm cd'))"
proof (cases "SigMatchGetLastSMFromLists s 12 fp_pairs")
  case None
  with assms show ?thesis by (auto simp: DetectFastPatternSetup_def split: if_splits)
next
  case (Some pm)
  obtain r1 cd1 where cd: "DetectFastPatternSetup_cd (ctx (sm_at s pm)) arg = (r1, cd1)"
    by (cases "DetectFastPatternSetup_cd (ctx (sm_at s pm)) arg")
  from setup_cd_cases [OF cd] assms Some cd show ?thesis
    by (auto simp: DetectFastPatternSetup_def ctx_write_same split: if_splits)
qed

lemma sint_of_nat_32: "n < 2 ^ 31 \<Longrightarrow> sint (of_nat n :: 32 word) = int n"
  by (simp add: signed_of_nat signed_take_bit_int_eq_self)

lemma ucast_of_nat_16: "(ucast (of_nat n :: 32 word) :: 16 word) = of_nat n"
  by (simp add: unsigned_of_nat word_of_nat_eq_iff min_def)

lemma unat_of_nat_16: "n \<le> 65535 \<Longrightarrow> unat (of_nat n :: 16 word) = n"
  by (simp add: unat_of_nat)

lemma unat_16_le: "unat (w :: 16 word) \<le> 65535"
  using unsigned_less [of w, where 'a = nat] by simp

lemma pcre_get_substring_4:
  "pcre_get_substring [w, g1, g2, g3] 2 = Some g2" "pcre_get_substring [w, g1, g2, g3] 3 = Some g3"
  by (simp_all add: pcre_get_substring_def)

lemma pcre_exec_nonempty: "fst (pcre_exec arg) \<noteq> - 1 \<Longrightarrow> arg \<noteq> []"
  by (auto simp: pcre_exec_def match_only_def match_chop_at_def Let_def)

text \<open>The chop branch when the sum of the two numbers fits a C \<open>int\<close>.\<close>

lemma setup_cd_chop:
  assumes ok: "\<not> (DETECT_CONTENT_NEGATED \<in> flags cd \<and> has_relative_modifier cd)"
    and m: "pcre_exec arg = (4, [w, g1, g2, g3])"
    and small: "decimal_value g2 + decimal_value g3 < 2 ^ 31"
  shows "DetectFastPatternSetup_cd cd (Some arg) =
     (if unat (content_len cd) < decimal_value g2 + decimal_value g3 then (- 1, cd)
      else (0, cd\<lparr>fp_chop_offset := of_nat (decimal_value g2),
                  fp_chop_len := of_nat (decimal_value g3),
                  flags := insert DETECT_CONTENT_FAST_PATTERN
                    (insert DETECT_CONTENT_FAST_PATTERN_CHOP (flags cd))\<rparr>))"
proof -
  let ?off = "decimal_value g2" and ?len = "decimal_value g3"
  have ne: "arg \<noteq> []"
    using m pcre_exec_nonempty [of arg] by simp
  have so: "sint (atoi g2) = int ?off"
    using small by (simp add: atoi_def sint_of_nat_32)
  have "of_nat ?off + of_nat ?len = (of_nat (?off + ?len) :: 32 word)" by simp
  then have ss: "sint (atoi g2 + atoi g3) = int (?off + ?len)"
    using small by (simp only: atoi_def sint_of_nat_32)
  have uc: "(ucast (atoi g2) :: 16 word) = of_nat ?off" "(ucast (atoi g3) :: 16 word) = of_nat ?len"
    by (simp_all only: atoi_def ucast_of_nat_16)
  have cl: "unat (content_len cd) \<le> 65535" by (rule unat_16_le)
  have un: "int (unat (content_len cd)) = uint (content_len cd)" by simp
  have step: "DetectFastPatternSetup_cd cd (Some arg) =
     (if 65535 < int ?off then (- 1, cd)
      else if 65535 < int (?off + ?len) then (- 1, cd)
      else if uint (content_len cd) < int (?off + ?len) then (- 1, cd)
      else (0, cd\<lparr>fp_chop_offset := of_nat ?off, fp_chop_len := of_nat ?len,
                  flags := insert DETECT_CONTENT_FAST_PATTERN
                    (insert DETECT_CONTENT_FAST_PATTERN_CHOP (flags cd))\<rparr>))"
    using ok ne
    by (auto simp add: DetectFastPatternSetup_cd_def m pcre_get_substring_4 so ss uc Let_def
        simp del: of_nat_add)
  show ?thesis
    unfolding step using cl un by (auto simp del: of_nat_add of_nat_unat) 
qed

lemma ctx_write_read:
  "snd pm < length (sm_lists s (fst pm)) \<Longrightarrow> ctx (sm_at (ctx_write s pm cd) pm) = cd"
  by (simp add: ctx_write_def sm_at_def)

lemma target_valid:
  "fast_pattern_target s = Some pm \<Longrightarrow> snd pm < length (sm_lists s (fst pm))"
  unfolding fast_pattern_target_def by (rule lookup_valid)

lemma fp_pairs_12:
  "take 6 fp_pairs =
     [(DETECT_CONTENT, DETECT_SM_LIST_PMATCH),
      (DETECT_URICONTENT, DETECT_SM_LIST_UMATCH),
      (DETECT_AL_HTTP_CLIENT_BODY, DETECT_SM_LIST_HCBDMATCH),
      (DETECT_AL_HTTP_HEADER, DETECT_SM_LIST_HHDMATCH),
      (DETECT_AL_HTTP_RAW_HEADER, DETECT_SM_LIST_HRHDMATCH),
      (DETECT_AL_HTTP_METHOD, DETECT_SM_LIST_HMDMATCH)]"
  by (simp add: fp_pairs_def)

lemma target_none_if_empty:
  "sm_lists s DETECT_SM_LIST_PMATCH = [] \<Longrightarrow> sm_lists s DETECT_SM_LIST_UMATCH = [] \<Longrightarrow>
   sm_lists s DETECT_SM_LIST_HCBDMATCH = [] \<Longrightarrow> sm_lists s DETECT_SM_LIST_HHDMATCH = [] \<Longrightarrow>
   sm_lists s DETECT_SM_LIST_HRHDMATCH = [] \<Longrightarrow> sm_lists s DETECT_SM_LIST_HMDMATCH = [] \<Longrightarrow>
   fast_pattern_target s = None"
  by (simp add: fast_pattern_target_def SigMatchGetLastSMFromLists_def fp_pairs_12)

lemma setup_on_target:
  assumes "fast_pattern_target s = Some pm"
  shows "DetectFastPatternSetup s arg =
     (fst (DetectFastPatternSetup_cd (ctx (sm_at s pm)) arg),
      ctx_write s pm (snd (DetectFastPatternSetup_cd (ctx (sm_at s pm)) arg)))"
proof (cases "sm_lists s DETECT_SM_LIST_PMATCH = [] \<and> sm_lists s DETECT_SM_LIST_UMATCH = [] \<and>
      sm_lists s DETECT_SM_LIST_HCBDMATCH = [] \<and> sm_lists s DETECT_SM_LIST_HHDMATCH = [] \<and>
      sm_lists s DETECT_SM_LIST_HRHDMATCH = [] \<and> sm_lists s DETECT_SM_LIST_HMDMATCH = [] \<and>
      sm_lists s DETECT_SM_LIST_HCDMATCH = []")
  case True
  then have "fast_pattern_target s = None" by (simp add: target_none_if_empty)
  with assms show ?thesis by simp
next
  case False
  from assms have "SigMatchGetLastSMFromLists s 12 fp_pairs = Some pm"
    by (simp add: fast_pattern_target_def)
  then show ?thesis
    by (simp add: DetectFastPatternSetup_def False split: prod.splits)
qed

lemma setup_cd_negated_relative:
  "DETECT_CONTENT_NEGATED \<in> flags cd \<Longrightarrow> has_relative_modifier cd \<Longrightarrow>
   DetectFastPatternSetup_cd cd arg = (- 1, cd)"
  by (simp add: DetectFastPatternSetup_cd_def)

lemma setup_cd_only:
  assumes "fst (pcre_exec arg) = 2"
  shows "DetectFastPatternSetup_cd cd (Some arg) =
     (if DETECT_CONTENT_NEGATED \<in> flags cd \<or> has_relative_modifier cd then (- 1, cd)
      else (0, cd\<lparr>flags := insert DETECT_CONTENT_FAST_PATTERN
                    (insert DETECT_CONTENT_FAST_PATTERN_ONLY (flags cd))\<rparr>))"
proof -
  have "arg \<noteq> []" using assms pcre_exec_nonempty [of arg] by simp
  then show ?thesis
    using assms by (cases "pcre_exec arg") (auto simp: DetectFastPatternSetup_cd_def)
qed

lemma ctx_write_other_list:
  "l \<noteq> fst pm \<Longrightarrow> sm_lists (ctx_write s pm cd) l = sm_lists s l"
  by (simp add: ctx_write_def)

lemma ctx_write_ctxs:
  "map ctx (sm_lists (ctx_write s pm cd) l) =
     (if l = fst pm then (map ctx (sm_lists s l))[snd pm := cd] else map ctx (sm_lists s l))"
  by (simp add: ctx_write_def sm_at_def map_update)

lemma list_all_update: "list_all P xs \<Longrightarrow> P v \<Longrightarrow> list_all P (xs[i := v])"
  by (auto simp: list_all_iff dest: set_update_subset_insert [THEN subsetD])

text \<open>Evaluation of the regex, of \<open>atoi\<close> and of the lookup on concrete inputs.\<close>

lemmas pcre_eval = pcre_exec_def match_only_def match_chop_at_def pcre_space_def pcre_digit_def Let_def
lemmas atoi_eval = decimal_value_def digit_value_def pcre_digit_def
lemmas sig_eval = payload_signature_def payload_keyword_def sm_at_def fast_pattern_target_def
  SigMatchGetLastSMFromLists_def fp_pairs_def

lemma pcre_exec_only: "pcre_exec ''only'' = (2, [''only'', ''only''])"
  by (simp add: pcre_eval)

lemma pcre_exec_3_4: "pcre_exec ''3,4'' = (4, [''3,4'', [], ''3'', ''4''])"
  by (simp add: pcre_eval)

lemma pcre_exec_0_1: "pcre_exec ''0,1'' = (4, [''0,1'', [], ''0'', ''1''])"
  by (simp add: pcre_eval)

lemma decimal_values:
  "decimal_value ''0'' = 0" "decimal_value ''1'' = 1" "decimal_value ''3'' = 3"
  "decimal_value ''4'' = 4"
  by (simp_all add: atoi_eval)

lemma options_setup_append:
  "options_setup (xs @ ys) s =
     (case options_setup xs s of None \<Rightarrow> None | Some s' \<Rightarrow> options_setup ys s')"
  by (induction xs arbitrary: s) (auto split: prod.splits)

section \<open>The directive: claims\<close>

text \<open>
  Claim C9. When none of the seven supported lists holds a keyword of its content-bearing
  type, \<open>DetectFastPatternSetup\<close> returns \<open>-1\<close> and the signature is as it was: no flag
  and no chop field of any keyword is written.
\<close>

theorem setup_without_content_keyword:
  "no_content_keyword s \<Longrightarrow> DetectFastPatternSetup s arg = (- 1, s)"
  by (simp add: DetectFastPatternSetup_def lookup_none)


theorem setup_without_content_keyword_witness:
  "no_content_keyword (payload_signature [(payload_keyword 0 [] {})\<lparr>type := DETECT_KEYWORD 0\<rparr>]) \<and>
   DetectFastPatternSetup (payload_signature [(payload_keyword 0 [] {})\<lparr>type := DETECT_KEYWORD 0\<rparr>]) None =
     (- 1, payload_signature [(payload_keyword 0 [] {})\<lparr>type := DETECT_KEYWORD 0\<rparr>])"
  using setup_without_content_keyword
    [of "payload_signature [(payload_keyword 0 [] {})\<lparr>type := DETECT_KEYWORD 0\<rparr>]" None]
  by (simp add: no_content_keyword_def sig_eval)


text \<open>
  Claim C3, as the code has it. A \<open>fast_pattern:only\<close> directive whose target is negated is
  refused, also when the target carries no relative modifier: \<open>DetectFastPatternSetup\<close>
  returns \<open>-1\<close> and stamps nothing. (The argument is any string on which the regex matches
  with its first alternative.)
\<close>

theorem only_rejects_negated_keyword:
  assumes "fast_pattern_target s = Some pm"
    and "DETECT_CONTENT_NEGATED \<in> flags (ctx (sm_at s pm))"
    and "fst (pcre_exec arg) = 2"
  shows "DetectFastPatternSetup s (Some arg) = (- 1, s)"
  using assms by (simp add: setup_on_target setup_cd_only ctx_write_same)


theorem only_rejects_negated_keyword_witness:
  "fast_pattern_target (payload_signature
       [payload_keyword 0 ''one'' {}, payload_keyword 1 ''two'' {DETECT_CONTENT_NEGATED}]) =
     Some (DETECT_SM_LIST_PMATCH, 1) \<and>
   DETECT_CONTENT_NEGATED \<in> flags (ctx (sm_at (payload_signature
       [payload_keyword 0 ''one'' {}, payload_keyword 1 ''two'' {DETECT_CONTENT_NEGATED}])
       (DETECT_SM_LIST_PMATCH, 1))) \<and>
   fst (pcre_exec ''only'') = 2 \<and>
   DetectFastPatternSetup (payload_signature
       [payload_keyword 0 ''one'' {}, payload_keyword 1 ''two'' {DETECT_CONTENT_NEGATED}])
       (Some ''only'') =
     (- 1, payload_signature
       [payload_keyword 0 ''one'' {}, payload_keyword 1 ''two'' {DETECT_CONTENT_NEGATED}])"
  using only_rejects_negated_keyword
    [of "payload_signature
       [payload_keyword 0 ''one'' {}, payload_keyword 1 ''two'' {DETECT_CONTENT_NEGATED}]"
      "(DETECT_SM_LIST_PMATCH, 1)" "''only''"]
  by (simp add: sig_eval pcre_exec_only)

text \<open>
  Claim C3 as stated fails: the rule prefix \<open>content:one; content:!two;\<close> loads, its last
  keyword is negated and has no relative modifier, and \<open>fast_pattern:only\<close> on it returns
  \<open>-1\<close> (the unit test \<open>DetectFastPatternTest27\<close> expects this rule to be refused).
\<close>

theorem only_on_negated_keyword_counterexample:
  "SigInit 1 [OptContent False ''one'', OptContent True ''two''] =
     Some (payload_signature
       [payload_keyword 0 ''one'' {}, payload_keyword 1 ''two'' {DETECT_CONTENT_NEGATED}]) \<and>
   \<not> has_relative_modifier (ctx (payload_keyword 1 ''two'' {DETECT_CONTENT_NEGATED})) \<and>
   fst (DetectFastPatternSetup (payload_signature
       [payload_keyword 0 ''one'' {}, payload_keyword 1 ''two'' {DETECT_CONTENT_NEGATED}])
       (Some ''only'')) = - 1"
proof -
  let ?s = "payload_signature
       [payload_keyword 0 ''one'' {}, payload_keyword 1 ''two'' {DETECT_CONTENT_NEGATED}]"
  have load: "SigInit 1 [OptContent False ''one'', OptContent True ''two''] = Some ?s"
    by (simp add: SigInit_def SigAlloc_def DetectContentSetup_def payload_signature_def
        payload_keyword_def)
  have target: "fast_pattern_target ?s = Some (DETECT_SM_LIST_PMATCH, Suc 0)"
    by (simp add: sig_eval)
  have neg: "DETECT_CONTENT_NEGATED \<in> flags (ctx (sm_at ?s (DETECT_SM_LIST_PMATCH, Suc 0)))"
    by (simp add: sig_eval)
  have "DetectFastPatternSetup ?s (Some ''only'') = (- 1, ?s)"
    using neg by (subst setup_on_target [OF target])
      (simp add: setup_cd_only pcre_exec_only ctx_write_same)
  then show ?thesis
    using load by (simp add: has_relative_modifier_def payload_keyword_def)
qed


text \<open>
  Claim C7. Let the target of the directive be negated. If it carries no relative modifier
  and the argument is \<open>offset,length\<close> with \<open>offset + length\<close> within the pattern, the
  directive succeeds and the target then carries \<open>NEGATED\<close>, \<open>FAST_PATTERN\<close> and
  \<open>FAST_PATTERN_CHOP\<close> (on top of its former flags) with the chop offset and length
  recorded. If it carries a relative modifier (distance, within, offset or depth), the
  directive is refused whatever its argument, and nothing is written.
\<close>

theorem negated_keyword_may_be_chopped:
  assumes target: "fast_pattern_target s = Some pm"
    and neg: "DETECT_CONTENT_NEGATED \<in> flags (ctx (sm_at s pm))"
  shows "(\<not> has_relative_modifier (ctx (sm_at s pm)) \<and>
          pcre_exec arg = (4, [w, g1, g2, g3]) \<and>
          decimal_value g2 + decimal_value g3 \<le> unat (content_len (ctx (sm_at s pm))) \<longrightarrow>
          fst (DetectFastPatternSetup s (Some arg)) = 0 \<and>
          flags (ctx (sm_at (snd (DetectFastPatternSetup s (Some arg))) pm)) =
            {DETECT_CONTENT_FAST_PATTERN, DETECT_CONTENT_FAST_PATTERN_CHOP} \<union>
            flags (ctx (sm_at s pm)) \<and>
          DETECT_CONTENT_NEGATED \<in>
            flags (ctx (sm_at (snd (DetectFastPatternSetup s (Some arg))) pm)) \<and>
          unat (fp_chop_offset (ctx (sm_at (snd (DetectFastPatternSetup s (Some arg))) pm))) =
            decimal_value g2 \<and>
          unat (fp_chop_len (ctx (sm_at (snd (DetectFastPatternSetup s (Some arg))) pm))) =
            decimal_value g3) \<and>
         (has_relative_modifier (ctx (sm_at s pm)) \<longrightarrow>
            DetectFastPatternSetup s arg' = (- 1, s))"
proof (intro conjI impI)
  assume a: "\<not> has_relative_modifier (ctx (sm_at s pm)) \<and>
          pcre_exec arg = (4, [w, g1, g2, g3]) \<and>
          decimal_value g2 + decimal_value g3 \<le> unat (content_len (ctx (sm_at s pm)))"
  let ?cd = "ctx (sm_at s pm)"
  let ?s' = "snd (DetectFastPatternSetup s (Some arg))"
  have le: "decimal_value g2 + decimal_value g3 \<le> 65535"
    using a unat_16_le [of "content_len ?cd"] by linarith
  then have small: "decimal_value g2 + decimal_value g3 < 2 ^ 31" by simp
  have ok: "\<not> (DETECT_CONTENT_NEGATED \<in> flags ?cd \<and> has_relative_modifier ?cd)"
    using a by simp
  have m: "pcre_exec arg = (4, [w, g1, g2, g3])" using a by simp
  have cd: "DetectFastPatternSetup_cd ?cd (Some arg) =
      (0, ?cd\<lparr>fp_chop_offset := of_nat (decimal_value g2),
                fp_chop_len := of_nat (decimal_value g3),
                flags := insert DETECT_CONTENT_FAST_PATTERN
                   (insert DETECT_CONTENT_FAST_PATTERN_CHOP (flags ?cd))\<rparr>)"
    using a by (simp add: setup_cd_chop [OF ok m small])
  have o: "decimal_value g2 \<le> 65535" and l: "decimal_value g3 \<le> 65535"
    using le by simp_all
  have after: "ctx (sm_at ?s' pm) =
      ?cd\<lparr>fp_chop_offset := of_nat (decimal_value g2),
           fp_chop_len := of_nat (decimal_value g3),
           flags := insert DETECT_CONTENT_FAST_PATTERN
              (insert DETECT_CONTENT_FAST_PATTERN_CHOP (flags ?cd))\<rparr>"
    by (simp add: setup_on_target [OF target] cd ctx_write_read [OF target_valid [OF target]])
  show "fst (DetectFastPatternSetup s (Some arg)) = 0"
    by (simp add: setup_on_target [OF target] cd)
  show "flags (ctx (sm_at ?s' pm)) =
      {DETECT_CONTENT_FAST_PATTERN, DETECT_CONTENT_FAST_PATTERN_CHOP} \<union> flags ?cd"
    by (simp add: after)
  show "DETECT_CONTENT_NEGATED \<in> flags (ctx (sm_at ?s' pm))"
    using neg by (simp add: after)
  show "unat (fp_chop_offset (ctx (sm_at ?s' pm))) = decimal_value g2"
    by (simp add: after unat_of_nat_16 [OF o])
  show "unat (fp_chop_len (ctx (sm_at ?s' pm))) = decimal_value g3"
    by (simp add: after unat_of_nat_16 [OF l])
next
  assume "has_relative_modifier (ctx (sm_at s pm))"
  then show "DetectFastPatternSetup s arg' = (- 1, s)"
    using neg by (simp add: setup_on_target [OF target] setup_cd_negated_relative ctx_write_same)
qed


theorem negated_keyword_may_be_chopped_witness:
  "fast_pattern_target (payload_signature
       [payload_keyword 0 ''one'' {}, payload_keyword 1 ''twooneone'' {DETECT_CONTENT_NEGATED}]) =
     Some (DETECT_SM_LIST_PMATCH, 1) \<and>
   pcre_exec ''3,4'' = (4, [''3,4'', [], ''3'', ''4'']) \<and>
   decimal_value ''3'' + decimal_value ''4'' \<le> length ''twooneone'' \<and>
   fst (DetectFastPatternSetup (payload_signature
       [payload_keyword 0 ''one'' {}, payload_keyword 1 ''twooneone'' {DETECT_CONTENT_NEGATED}])
       (Some ''3,4'')) = 0 \<and>
   flags (ctx (sm_at (snd (DetectFastPatternSetup (payload_signature
       [payload_keyword 0 ''one'' {}, payload_keyword 1 ''twooneone'' {DETECT_CONTENT_NEGATED}])
       (Some ''3,4''))) (DETECT_SM_LIST_PMATCH, 1))) =
     {DETECT_CONTENT_FAST_PATTERN, DETECT_CONTENT_FAST_PATTERN_CHOP, DETECT_CONTENT_NEGATED} \<and>
   unat (fp_chop_offset (ctx (sm_at (snd (DetectFastPatternSetup (payload_signature
       [payload_keyword 0 ''one'' {}, payload_keyword 1 ''twooneone'' {DETECT_CONTENT_NEGATED}])
       (Some ''3,4''))) (DETECT_SM_LIST_PMATCH, 1)))) = 3 \<and>
   unat (fp_chop_len (ctx (sm_at (snd (DetectFastPatternSetup (payload_signature
       [payload_keyword 0 ''one'' {}, payload_keyword 1 ''twooneone'' {DETECT_CONTENT_NEGATED}])
       (Some ''3,4''))) (DETECT_SM_LIST_PMATCH, 1)))) = 4 \<and>
   fast_pattern_target (payload_signature
       [payload_keyword 0 ''one'' {},
        payload_keyword 1 ''twooneone'' {DETECT_CONTENT_NEGATED, DETECT_CONTENT_DISTANCE}]) =
     Some (DETECT_SM_LIST_PMATCH, 1) \<and>
   has_relative_modifier (ctx (payload_keyword 1 ''twooneone''
       {DETECT_CONTENT_NEGATED, DETECT_CONTENT_DISTANCE})) \<and>
   DetectFastPatternSetup (payload_signature
       [payload_keyword 0 ''one'' {},
        payload_keyword 1 ''twooneone'' {DETECT_CONTENT_NEGATED, DETECT_CONTENT_DISTANCE}])
       (Some ''3,4'') =
     (- 1, payload_signature
       [payload_keyword 0 ''one'' {},
        payload_keyword 1 ''twooneone'' {DETECT_CONTENT_NEGATED, DETECT_CONTENT_DISTANCE}])"
proof -
  let ?s = "payload_signature
       [payload_keyword 0 ''one'' {}, payload_keyword 1 ''twooneone'' {DETECT_CONTENT_NEGATED}]"
  let ?t = "payload_signature
       [payload_keyword 0 ''one'' {},
        payload_keyword 1 ''twooneone'' {DETECT_CONTENT_NEGATED, DETECT_CONTENT_DISTANCE}]"
  have ts: "fast_pattern_target ?s = Some (DETECT_SM_LIST_PMATCH, 1)"
    and tt: "fast_pattern_target ?t = Some (DETECT_SM_LIST_PMATCH, 1)"
    by (simp_all add: sig_eval)
  have ns: "DETECT_CONTENT_NEGATED \<in> flags (ctx (sm_at ?s (DETECT_SM_LIST_PMATCH, 1)))"
    and nt: "DETECT_CONTENT_NEGATED \<in> flags (ctx (sm_at ?t (DETECT_SM_LIST_PMATCH, 1)))"
    by (simp_all add: sig_eval)
  show ?thesis
    using negated_keyword_may_be_chopped [OF ts ns, of "''3,4''" "''3,4''" "[]" "''3''" "''4''" None]
      negated_keyword_may_be_chopped [OF tt nt, of "[]" "[]" "[]" "[]" "[]" "Some ''3,4''"]
      ts tt
    by (simp add: pcre_exec_3_4 decimal_values has_relative_modifier_def payload_signature_def
        payload_keyword_def sm_at_def insert_commute)
qed


text \<open>
  Claim C4, as the code has it. Let the directive have a target that is not a negated keyword
  with a relative modifier, let its argument be \<open>offset,length\<close>, and let
  \<open>offset + length\<close> fit a C \<open>int\<close>. Then the directive is refused (\<open>-1\<close>) if and only if
  the offset exceeds 65535, or the length exceeds 65535, or their sum exceeds 65535, or their
  sum exceeds the byte length of the target's pattern. Otherwise it returns 0, the target is
  flagged \<open>FAST_PATTERN_CHOP\<close> with that offset and length, and in every list \<open>l\<close> in which
  each chopped pattern had \<open>offset + length \<le> min 65535 content_len\<close> before, each has it
  afterwards.
\<close>

theorem chop_rejected_iff_out_of_bounds:
  assumes target: "fast_pattern_target s = Some pm"
    and ok: "\<not> (DETECT_CONTENT_NEGATED \<in> flags (ctx (sm_at s pm)) \<and>
               has_relative_modifier (ctx (sm_at s pm)))"
    and m: "pcre_exec arg = (4, [w, g1, g2, g3])"
    and small: "decimal_value g2 + decimal_value g3 < 2 ^ 31"
    and res: "DetectFastPatternSetup s (Some arg) = (r, s')"
  shows "((r = - 1) =
            (65535 < decimal_value g2 \<or> 65535 < decimal_value g3 \<or>
             65535 < decimal_value g2 + decimal_value g3 \<or>
             unat (content_len (ctx (sm_at s pm))) < decimal_value g2 + decimal_value g3)) \<and>
         (r \<noteq> - 1 \<longrightarrow>
            r = 0 \<and>
            DETECT_CONTENT_FAST_PATTERN_CHOP \<in> flags (ctx (sm_at s' pm)) \<and>
            unat (fp_chop_offset (ctx (sm_at s' pm))) = decimal_value g2 \<and>
            unat (fp_chop_len (ctx (sm_at s' pm))) = decimal_value g3 \<and>
            (list_all chop_in_bounds (map ctx (sm_lists s l)) \<longrightarrow>
               list_all chop_in_bounds (map ctx (sm_lists s' l))))"
proof -
  let ?cd = "ctx (sm_at s pm)"
  let ?off = "decimal_value g2" and ?len = "decimal_value g3"
  let ?cd' = "?cd\<lparr>fp_chop_offset := of_nat ?off, fp_chop_len := of_nat ?len,
                flags := insert DETECT_CONTENT_FAST_PATTERN
                   (insert DETECT_CONTENT_FAST_PATTERN_CHOP (flags ?cd))\<rparr>"
  have cl: "unat (content_len ?cd) \<le> 65535" by (rule unat_16_le)
  have valid: "snd pm < length (sm_lists s (fst pm))" by (rule target_valid [OF target])
  show ?thesis
  proof (cases "unat (content_len ?cd) < ?off + ?len")
    case True
    then have "DetectFastPatternSetup s (Some arg) = (- 1, s)"
      by (simp add: setup_on_target [OF target] setup_cd_chop [OF ok m small] ctx_write_same)
    with res True show ?thesis by simp
  next
    case False
    then have "DetectFastPatternSetup s (Some arg) = (0, ctx_write s pm ?cd')"
      by (simp add: setup_on_target [OF target] setup_cd_chop [OF ok m small])
    with res have r: "r = 0" and s': "s' = ctx_write s pm ?cd'" by simp_all
    from False cl have o: "?off \<le> 65535" and l: "?len \<le> 65535" by simp_all
    have bound: "chop_in_bounds ?cd'"
      using False cl by (simp add: chop_in_bounds_def unat_of_nat_16 [OF o] unat_of_nat_16 [OF l])
    have inv: "list_all chop_in_bounds (map ctx (sm_lists s l)) \<longrightarrow>
               list_all chop_in_bounds (map ctx (sm_lists s' l))"
      unfolding s' using bound by (simp add: ctx_write_ctxs list_all_update)
    have not_out: "\<not> (65535 < ?off \<or> 65535 < ?len \<or> 65535 < ?off + ?len \<or>
        unat (content_len ?cd) < ?off + ?len)"
      using False cl by simp
    show ?thesis
      using inv not_out
      by (simp add: r s' ctx_write_read [OF valid] unat_of_nat_16 [OF o] unat_of_nat_16 [OF l])
  qed
qed


theorem chop_rejected_iff_out_of_bounds_witness:
  "fast_pattern_target (payload_signature [payload_keyword 0 ''oneoneone'' {}]) =
     Some (DETECT_SM_LIST_PMATCH, 0) \<and>
   \<not> (DETECT_CONTENT_NEGATED \<in> flags (ctx (payload_keyword 0 ''oneoneone'' {})) \<and>
      has_relative_modifier (ctx (payload_keyword 0 ''oneoneone'' {}))) \<and>
   pcre_exec ''3,4'' = (4, [''3,4'', [], ''3'', ''4'']) \<and>
   decimal_value ''3'' + decimal_value ''4'' < (2 :: nat) ^ 31 \<and>
   fst (DetectFastPatternSetup (payload_signature [payload_keyword 0 ''oneoneone'' {}])
       (Some ''3,4'')) = 0 \<and>
   DETECT_CONTENT_FAST_PATTERN_CHOP \<in> flags (ctx (sm_at
     (snd (DetectFastPatternSetup (payload_signature [payload_keyword 0 ''oneoneone'' {}])
        (Some ''3,4''))) (DETECT_SM_LIST_PMATCH, 0))) \<and>
   unat (fp_chop_offset (ctx (sm_at
     (snd (DetectFastPatternSetup (payload_signature [payload_keyword 0 ''oneoneone'' {}])
        (Some ''3,4''))) (DETECT_SM_LIST_PMATCH, 0)))) = 3 \<and>
   unat (fp_chop_len (ctx (sm_at
     (snd (DetectFastPatternSetup (payload_signature [payload_keyword 0 ''oneoneone'' {}])
        (Some ''3,4''))) (DETECT_SM_LIST_PMATCH, 0)))) = 4 \<and>
   list_all chop_in_bounds (map ctx (sm_lists
     (payload_signature [payload_keyword 0 ''oneoneone'' {}]) DETECT_SM_LIST_PMATCH)) \<and>
   list_all chop_in_bounds (map ctx (sm_lists
     (snd (DetectFastPatternSetup (payload_signature [payload_keyword 0 ''oneoneone'' {}])
        (Some ''3,4''))) DETECT_SM_LIST_PMATCH))"
proof -
  let ?s = "payload_signature [payload_keyword 0 ''oneoneone'' {}]"
  have ts: "fast_pattern_target ?s = Some (DETECT_SM_LIST_PMATCH, 0)"
    by (simp add: sig_eval)
  have ok: "\<not> (DETECT_CONTENT_NEGATED \<in> flags (ctx (sm_at ?s (DETECT_SM_LIST_PMATCH, 0))) \<and>
      has_relative_modifier (ctx (sm_at ?s (DETECT_SM_LIST_PMATCH, 0))))"
    by (simp add: sig_eval)
  have small: "decimal_value ''3'' + decimal_value ''4'' < 2 ^ 31"
    by (simp add: decimal_values)
  have res: "DetectFastPatternSetup ?s (Some ''3,4'') =
      (fst (DetectFastPatternSetup ?s (Some ''3,4'')), snd (DetectFastPatternSetup ?s (Some ''3,4'')))"
    by simp
  show ?thesis
    using chop_rejected_iff_out_of_bounds [OF ts ok pcre_exec_3_4 small res, of DETECT_SM_LIST_PMATCH] ts
    by (simp add: pcre_exec_3_4 decimal_values has_relative_modifier_def payload_signature_def
        payload_keyword_def sm_at_def chop_in_bounds_def)
qed

text \<open>
  Claim C4 as stated fails in its "only if" half: on \<open>content:!abc; distance:..;\<close> the
  directive \<open>fast_pattern:0,1\<close> is refused although none of the four bounds is exceeded.
\<close>

theorem chop_rejection_counterexample:
  "SigInit 1 [OptContent True ''abc'', OptDistance] =
     Some (payload_signature
       [payload_keyword 0 ''abc'' {DETECT_CONTENT_DISTANCE, DETECT_CONTENT_NEGATED}]) \<and>
   pcre_exec ''0,1'' = (4, [''0,1'', [], ''0'', ''1'']) \<and>
   fst (DetectFastPatternSetup (payload_signature
       [payload_keyword 0 ''abc'' {DETECT_CONTENT_DISTANCE, DETECT_CONTENT_NEGATED}])
       (Some ''0,1'')) = - 1 \<and>
   \<not> (65535 < decimal_value ''0'' \<or> 65535 < decimal_value ''1'' \<or>
      65535 < decimal_value ''0'' + decimal_value ''1'' \<or>
      unat (content_len (ctx (payload_keyword 0 ''abc''
        {DETECT_CONTENT_DISTANCE, DETECT_CONTENT_NEGATED}))) <
      decimal_value ''0'' + decimal_value ''1'')"
proof -
  let ?s = "payload_signature
       [payload_keyword 0 ''abc'' {DETECT_CONTENT_DISTANCE, DETECT_CONTENT_NEGATED}]"
  have load: "SigInit 1 [OptContent True ''abc'', OptDistance] = Some ?s"
    by (simp add: SigInit_def SigAlloc_def DetectContentSetup_def DetectModifierSetup_def
        SigMatchGetLastSMFromLists_def fp_pairs_def sm_at_def ctx_write_def
        payload_signature_def payload_keyword_def)
  have target: "fast_pattern_target ?s = Some (DETECT_SM_LIST_PMATCH, 0)"
    by (simp add: sig_eval)
  have "DetectFastPatternSetup_cd (ctx (sm_at ?s (DETECT_SM_LIST_PMATCH, 0))) (Some ''0,1'') =
      (- 1, ctx (sm_at ?s (DETECT_SM_LIST_PMATCH, 0)))"
    by (rule setup_cd_negated_relative)
      (simp_all add: has_relative_modifier_def payload_signature_def payload_keyword_def sm_at_def)
  then have "DetectFastPatternSetup ?s (Some ''0,1'') = (- 1, ?s)"
    by (subst setup_on_target [OF target]) (simp add: ctx_write_same)
  then show ?thesis
    using load by (simp add: pcre_exec_0_1 decimal_values payload_keyword_def)
qed

lemma pcre_exec_1_intmax:
  "pcre_exec ''1,2147483647'' = (4, [''1,2147483647'', [], ''1'', ''2147483647''])"
  by (simp add: pcre_eval)

lemma decimal_value_intmax: "decimal_value ''2147483647'' = 2147483647"
  by (simp add: atoi_eval)

text \<open>
  The case the statement of C4 above leaves out. The test after \<open>length = atoi(...)\<close>
  compares \<open>offset\<close> once more, not \<open>length\<close>, so a length beyond 65535 is caught only by
  the test of the sum. When the sum does not fit the \<open>int\<close> (signed overflow, which C leaves
  undefined and two's-complement hardware wraps to a negative number), both tests of the sum
  pass: \<open>fast_pattern:1,2147483647\<close> on a nine-byte pattern is accepted and the chop length
  stored is the number truncated to 16 bits.
\<close>

lemma length_limit_test_misses:
  "DetectFastPatternSetup_cd (ctx (payload_keyword 0 ''oneonetwo'' {})) (Some ''1,2147483647'') =
     (0, (ctx (payload_keyword 0 ''oneonetwo'' {}))
        \<lparr>fp_chop_offset := 1, fp_chop_len := 65535,
         flags := {DETECT_CONTENT_FAST_PATTERN, DETECT_CONTENT_FAST_PATTERN_CHOP}\<rparr>)"
  by (simp add: DetectFastPatternSetup_cd_def pcre_exec_1_intmax pcre_get_substring_4
      has_relative_modifier_def payload_keyword_def atoi_def decimal_values decimal_value_intmax)

lemma pcre_exec_onlyboo: "pcre_exec ''onlyboo'' = (2, [''only'', ''only''])"
  by (simp add: pcre_eval)

lemma pcre_exec_boo_0_3: "pcre_exec ''boo0,3'' = (4, [''0,3'', [], ''0'', ''3''])"
  by (simp add: pcre_eval)

lemma pcre_exec_boo: "pcre_exec ''boo'' = (- 1, [])"
  by (simp add: pcre_eval)

text \<open>
  Claim C8 at the inputs where the code departs from it. The two alternatives of the regex
  are anchored on one side each, so \<open>fast_pattern:onlyboo\<close> is taken for
  \<open>fast_pattern:only\<close> and \<open>fast_pattern:boo0,3\<close> for \<open>fast_pattern:0,3\<close>: both return 0
  and stamp the keyword, where the claim has \<open>-1\<close> and no flag. (\<open>fast_pattern:boo\<close>, the
  argument of the unit test \<open>DetectFastPatternTest04\<close>, matches neither alternative.)
\<close>

theorem unanchored_argument_is_accepted:
  "pcre_exec ''onlyboo'' = (2, [''only'', ''only'']) \<and>
   fst (DetectFastPatternSetup (payload_signature [payload_keyword 0 ''/one/'' {}])
     (Some ''onlyboo'')) = 0 \<and>
   flags (ctx (sm_at (snd (DetectFastPatternSetup (payload_signature [payload_keyword 0 ''/one/'' {}])
     (Some ''onlyboo''))) (DETECT_SM_LIST_PMATCH, 0))) =
     {DETECT_CONTENT_FAST_PATTERN, DETECT_CONTENT_FAST_PATTERN_ONLY} \<and>
   pcre_exec ''boo0,3'' = (4, [''0,3'', [], ''0'', ''3'']) \<and>
   fst (DetectFastPatternSetup (payload_signature [payload_keyword 0 ''/one/'' {}])
     (Some ''boo0,3'')) = 0 \<and>
   flags (ctx (sm_at (snd (DetectFastPatternSetup (payload_signature [payload_keyword 0 ''/one/'' {}])
     (Some ''boo0,3''))) (DETECT_SM_LIST_PMATCH, 0))) =
     {DETECT_CONTENT_FAST_PATTERN, DETECT_CONTENT_FAST_PATTERN_CHOP}"
proof -
  let ?s = "payload_signature [payload_keyword 0 ''/one/'' {}]"
  have target: "fast_pattern_target ?s = Some (DETECT_SM_LIST_PMATCH, 0)"
    by (simp add: sig_eval)
  have cd: "ctx (sm_at ?s (DETECT_SM_LIST_PMATCH, 0)) = ctx (payload_keyword 0 ''/one/'' {})"
    by (simp add: payload_signature_def sm_at_def)
  have only: "DetectFastPatternSetup_cd (ctx (payload_keyword 0 ''/one/'' {})) (Some ''onlyboo'') =
      (0, (ctx (payload_keyword 0 ''/one/'' {}))
        \<lparr>flags := {DETECT_CONTENT_FAST_PATTERN, DETECT_CONTENT_FAST_PATTERN_ONLY}\<rparr>)"
    by (simp add: setup_cd_only pcre_exec_onlyboo has_relative_modifier_def payload_keyword_def)
  have chop: "DetectFastPatternSetup_cd (ctx (payload_keyword 0 ''/one/'' {})) (Some ''boo0,3'') =
      (0, (ctx (payload_keyword 0 ''/one/'' {}))
        \<lparr>fp_chop_offset := 0, fp_chop_len := 3,
         flags := {DETECT_CONTENT_FAST_PATTERN, DETECT_CONTENT_FAST_PATTERN_CHOP}\<rparr>)"
    by (simp add: DetectFastPatternSetup_cd_def pcre_exec_boo_0_3 pcre_get_substring_4
        has_relative_modifier_def payload_keyword_def atoi_def decimal_values atoi_eval)
  have valid: "snd (DETECT_SM_LIST_PMATCH, 0 :: nat) < length (sm_lists ?s (fst (DETECT_SM_LIST_PMATCH, 0 :: nat)))"
    by (simp add: payload_signature_def)
  show ?thesis
    by (simp add: setup_on_target [OF target] cd only chop ctx_write_read [OF valid]
        pcre_exec_onlyboo pcre_exec_boo_0_3)
qed

text \<open>
  The spec's scenario 5 (\<open>DetectFastPatternTest37\<close>): with payload keywords only, the
  directive marks the keyword declared just before it, the middle one of the three.
\<close>

lemma scenario_middle_keyword_chopped:
  "map_option (\<lambda>s. map (\<lambda>sm. (content (ctx sm), flags (ctx sm), fp_chop_offset (ctx sm),
        fp_chop_len (ctx sm))) (sm_lists s DETECT_SM_LIST_PMATCH))
     (SigInit 1 [OptContent False ''oneoneone'', OptContent False ''oneonetwo'',
        OptFastPattern (Some ''3,4''), OptContent False ''three'']) =
   Some [(''oneoneone'', {}, 0, 0),
         (''oneonetwo'', {DETECT_CONTENT_FAST_PATTERN, DETECT_CONTENT_FAST_PATTERN_CHOP}, 3, 4),
         (''three'', {}, 0, 0)]"
  by (simp add: SigInit_def SigAlloc_def DetectContentSetup_def DetectFastPatternSetup_def
      DetectFastPatternSetup_cd_def has_relative_modifier_def SigMatchGetLastSMFromLists_def
      fp_pairs_def sm_at_def ctx_write_def pcre_exec_3_4 pcre_get_substring_4 atoi_def
      decimal_values)

text \<open>
  Claim C6 at the input where the code departs from it. In \<open>cookie_signature\<close> the most
  recently declared content-bearing keyword is \<open>two\<close>, in the cookie list. The lookup is
  told to read 12 variadic arguments and is passed 14, so it never sees the cookie list: the
  directive binds to the older keyword \<open>one\<close> of the payload list and \<open>two\<close> stays
  unmarked. With the count 14 the same lookup returns \<open>two\<close>.
\<close>

theorem cookie_keyword_is_not_the_target:
  "fast_pattern_target cookie_signature = Some (DETECT_SM_LIST_PMATCH, 0) \<and>
   SigMatchGetLastSMFromLists cookie_signature 14 fp_pairs = Some (DETECT_SM_LIST_HCDMATCH, 0) \<and>
   idx (sm_at cookie_signature (DETECT_SM_LIST_PMATCH, 0)) <
     idx (sm_at cookie_signature (DETECT_SM_LIST_HCDMATCH, 0)) \<and>
   fst (DetectFastPatternSetup cookie_signature None) = 0 \<and>
   fast_pattern_marks (snd (DetectFastPatternSetup cookie_signature None)) DETECT_SM_LIST_PMATCH =
     [True] \<and>
   fast_pattern_marks (snd (DetectFastPatternSetup cookie_signature None)) DETECT_SM_LIST_HCDMATCH =
     [False]"
proof -
  have target: "fast_pattern_target cookie_signature = Some (DETECT_SM_LIST_PMATCH, 0)"
    by (simp add: cookie_signature_def sig_eval)
  have full: "SigMatchGetLastSMFromLists cookie_signature 14 fp_pairs =
      Some (DETECT_SM_LIST_HCDMATCH, 0)"
    by (simp add: cookie_signature_def sig_eval)
  have older: "idx (sm_at cookie_signature (DETECT_SM_LIST_PMATCH, 0)) <
      idx (sm_at cookie_signature (DETECT_SM_LIST_HCDMATCH, 0))"
    by (simp add: cookie_signature_def sig_eval)
  have cd: "DetectFastPatternSetup_cd (ctx (sm_at cookie_signature (DETECT_SM_LIST_PMATCH, 0))) None =
     (0, (ctx (sm_at cookie_signature (DETECT_SM_LIST_PMATCH, 0)))
        \<lparr>flags := {DETECT_CONTENT_FAST_PATTERN}\<rparr>)"
    by (simp add: DetectFastPatternSetup_cd_def cookie_signature_def sig_eval
        has_relative_modifier_def)
  have marks: "fast_pattern_marks (snd (DetectFastPatternSetup cookie_signature None))
        DETECT_SM_LIST_PMATCH = [True]"
    "fast_pattern_marks (snd (DetectFastPatternSetup cookie_signature None))
        DETECT_SM_LIST_HCDMATCH = [False]"
    by (simp_all add: setup_on_target [OF target] cd fast_pattern_marks_def ctx_write_def)
      (simp_all add: cookie_signature_def sig_eval)
  show ?thesis
    using target full older marks by (simp add: setup_on_target [OF target] cd)
qed

section \<open>Rules with payload keywords only\<close>

lemma ctx_write_length:
  "length (sm_lists (ctx_write s pm cd) l) = length (sm_lists s l)"
  by (simp add: ctx_write_def)

lemma ctx_write_nth_ctx:
  "i < length (sm_lists s l) \<Longrightarrow>
   ctx (sm_lists (ctx_write s pm cd) l ! i) =
     (if l = fst pm \<and> i = snd pm then cd else ctx (sm_lists s l ! i))"
  by (auto simp: ctx_write_def sm_at_def nth_list_update)

lemma setup_ok_cases:
  assumes "DetectFastPatternSetup s arg = (0, s')"
  obtains pm cd' where "fast_pattern_target s = Some pm"
    and "DetectFastPatternSetup_cd (ctx (sm_at s pm)) arg = (0, cd')"
    and "s' = ctx_write s pm cd'"
  using setup_cases [OF assms] by (auto simp: fast_pattern_target_def)

lemma payload_only_alloc: "payload_only (SigAlloc sid)"
  by (simp add: payload_only_def SigAlloc_def)

lemma payload_only_ctx_write: "payload_only s \<Longrightarrow> payload_only (ctx_write s pm cd)"
  by (simp add: payload_only_def ctx_write_def)

lemma payload_only_option:
  "payload_only s \<Longrightarrow> option_setup opt s = (r, s') \<Longrightarrow> payload_only s'"
proof (cases opt)
  case (OptContent negated bytes)
  assume "payload_only s" "option_setup opt s = (r, s')"
  with OptContent show ?thesis
    by (auto simp: DetectContentSetup_def payload_only_def split: if_splits)
next
  case (OptFastPattern arg)
  assume p: "payload_only s" and "option_setup opt s = (r, s')"
  with OptFastPattern have "DetectFastPatternSetup s arg = (r, s')" by simp
  from setup_cases [OF this] p show ?thesis
    by (auto simp: payload_only_ctx_write)
qed (auto simp: DetectModifierSetup_def payload_only_ctx_write split: option.splits if_splits)

lemma payload_only_options:
  "payload_only s \<Longrightarrow> options_setup opts s = Some s' \<Longrightarrow> payload_only s'"
proof (induction opts arbitrary: s)
  case Nil
  then show ?case by simp
next
  case (Cons opt opts)
  obtain r s1 where one: "option_setup opt s = (r, s1)" by (cases "option_setup opt s")
  with Cons.prems(2) have rest: "options_setup opts s1 = Some s'"
    by (simp split: if_splits)
  from payload_only_option [OF Cons.prems(1) one] rest show ?case
    by (rule Cons.IH)
qed

lemma fp_pairs_14: "take 7 fp_pairs = fp_pairs"
  by (simp add: fp_pairs_def)

lemma lookup_payload_only:
  assumes "payload_only s" and "sm_lists s DETECT_SM_LIST_PMATCH = xs @ [sm]"
    and "type sm = DETECT_CONTENT"
  shows "SigMatchGetLastSMFromLists s 12 fp_pairs = Some (DETECT_SM_LIST_PMATCH, length xs)"
    and "SigMatchGetLastSMFromLists s 14 fp_pairs = Some (DETECT_SM_LIST_PMATCH, length xs)"
  using assms
  by (simp_all add: SigMatchGetLastSMFromLists_def fp_pairs_12 fp_pairs_14 payload_only_def
      last_by_type_snoc)
    (simp_all add: fp_pairs_def last_by_type_snoc)

lemma ctx_write_last:
  assumes "sm_lists s DETECT_SM_LIST_PMATCH = xs @ [sm]"
  shows "sm_lists (ctx_write s (DETECT_SM_LIST_PMATCH, length xs) cd) DETECT_SM_LIST_PMATCH =
     xs @ [sm\<lparr>ctx := cd\<rparr>]"
  using assms by (simp add: ctx_write_def sm_at_def)

lemma sm_at_last:
  "sm_lists s DETECT_SM_LIST_PMATCH = xs @ [sm] \<Longrightarrow>
   sm_at s (DETECT_SM_LIST_PMATCH, length xs) = sm"
  by (simp add: sm_at_def)

lemma setup_only_with_modifier:
  assumes "fast_pattern_target s = Some pm"
    and "has_relative_modifier (ctx (sm_at s pm))"
    and "fst (pcre_exec arg) = 2"
  shows "DetectFastPatternSetup s (Some arg) = (- 1, s)"
  using assms by (simp add: setup_on_target setup_cd_only ctx_write_same)

lemma content_step:
  assumes "payload_only s" and "DetectContentSetup s negated bytes = (r, s1)" and "\<not> r < 0"
  shows "payload_only s1 \<and>
     (\<exists>sm. sm_lists s1 DETECT_SM_LIST_PMATCH = sm_lists s DETECT_SM_LIST_PMATCH @ [sm] \<and>
        type sm = DETECT_CONTENT \<and>
        flags (ctx sm) = (if negated then {DETECT_CONTENT_NEGATED} else {}))"
  using assms by (auto simp: DetectContentSetup_def payload_only_def split: if_splits)

lemma modifier_flag_cases:
  assumes "is_relative_modifier m"
  obtains f where "option_setup m = DetectModifierSetup f"
    and "f \<in> {DETECT_CONTENT_DISTANCE, DETECT_CONTENT_WITHIN, DETECT_CONTENT_OFFSET,
      DETECT_CONTENT_DEPTH}"
proof -
  from assms consider "m = OptDistance" | "m = OptWithin" | "m = OptOffset" | "m = OptDepth"
    by (auto simp: is_relative_modifier_def)
  then show ?thesis
  proof cases
    case 1 then show ?thesis by (intro that [of DETECT_CONTENT_DISTANCE]) (auto simp: fun_eq_iff)
  next
    case 2 then show ?thesis by (intro that [of DETECT_CONTENT_WITHIN]) (auto simp: fun_eq_iff)
  next
    case 3 then show ?thesis by (intro that [of DETECT_CONTENT_OFFSET]) (auto simp: fun_eq_iff)
  next
    case 4 then show ?thesis by (intro that [of DETECT_CONTENT_DEPTH]) (auto simp: fun_eq_iff)
  qed
qed

lemma modifier_step:
  assumes p: "payload_only s" and last: "sm_lists s DETECT_SM_LIST_PMATCH = xs @ [sm]"
    and t: "type sm = DETECT_CONTENT"
  shows "DetectModifierSetup f s =
     (if DETECT_CONTENT_FAST_PATTERN_ONLY \<in> flags (ctx sm) then (- 1, s)
      else if DETECT_CONTENT_NEGATED \<in> flags (ctx sm) \<and>
              DETECT_CONTENT_FAST_PATTERN \<in> flags (ctx sm) then (- 1, s)
      else (0, ctx_write s (DETECT_SM_LIST_PMATCH, length xs)
                 ((ctx sm)\<lparr>flags := insert f (flags (ctx sm))\<rparr>)))"
  by (simp add: DetectModifierSetup_def lookup_payload_only(2) [OF p last t] sm_at_last [OF last])

lemma target_payload_only:
  assumes "payload_only s" and "sm_lists s DETECT_SM_LIST_PMATCH = xs @ [sm]"
    and "type sm = DETECT_CONTENT"
  shows "fast_pattern_target s = Some (DETECT_SM_LIST_PMATCH, length xs)"
  unfolding fast_pattern_target_def using assms by (rule lookup_payload_only(1))

lemma content_modifier_only_rejected:
  assumes p: "payload_only s" and m: "is_relative_modifier m"
  shows "options_setup ([OptContent negated bytes, m, OptFastPattern (Some ''only'')] @ post) s = None"
proof -
  obtain r s1 where c: "DetectContentSetup s negated bytes = (r, s1)"
    by (cases "DetectContentSetup s negated bytes")
  show ?thesis
  proof (cases "r < 0")
    case True
    with c show ?thesis by simp
  next
    case False
    from content_step [OF p c False] obtain sm where
      p1: "payload_only s1"
      and l1: "sm_lists s1 DETECT_SM_LIST_PMATCH = sm_lists s DETECT_SM_LIST_PMATCH @ [sm]"
      and t1: "type sm = DETECT_CONTENT"
      and f1: "flags (ctx sm) = (if negated then {DETECT_CONTENT_NEGATED} else {})"
      by blast
    let ?xs = "sm_lists s DETECT_SM_LIST_PMATCH"
    from m obtain f where om: "option_setup m = DetectModifierSetup f"
      and f: "f \<in> {DETECT_CONTENT_DISTANCE, DETECT_CONTENT_WITHIN, DETECT_CONTENT_OFFSET,
        DETECT_CONTENT_DEPTH}"
      by (rule modifier_flag_cases)
    let ?cd = "(ctx sm)\<lparr>flags := insert f (flags (ctx sm))\<rparr>"
    let ?s2 = "ctx_write s1 (DETECT_SM_LIST_PMATCH, length ?xs) ?cd"
    have ms: "option_setup m s1 = (0, ?s2)"
      using f1 by (simp add: om modifier_step [OF p1 l1 t1])
    have p2: "payload_only ?s2" using p1 by (rule payload_only_ctx_write)
    have l2: "sm_lists ?s2 DETECT_SM_LIST_PMATCH = ?xs @ [sm\<lparr>ctx := ?cd\<rparr>]"
      using l1 by (rule ctx_write_last)
    have t2: "fast_pattern_target ?s2 = Some (DETECT_SM_LIST_PMATCH, length ?xs)"
      using p2 l2 by (rule target_payload_only) (simp add: t1)
    have rel: "has_relative_modifier (ctx (sm_at ?s2 (DETECT_SM_LIST_PMATCH, length ?xs)))"
      using f by (auto simp: sm_at_last [OF l2] has_relative_modifier_def)
    have "DetectFastPatternSetup ?s2 (Some ''only'') = (- 1, ?s2)"
      using t2 rel by (rule setup_only_with_modifier) (simp add: pcre_exec_only)
    with c False ms show ?thesis by simp
  qed
qed

lemma content_only_modifier_rejected:
  assumes p: "payload_only s" and m: "is_relative_modifier m"
  shows "options_setup ([OptContent negated bytes, OptFastPattern (Some ''only''), m] @ post) s = None"
proof -
  obtain r s1 where c: "DetectContentSetup s negated bytes = (r, s1)"
    by (cases "DetectContentSetup s negated bytes")
  show ?thesis
  proof (cases "r < 0")
    case True
    with c show ?thesis by simp
  next
    case False
    from content_step [OF p c False] obtain sm where
      p1: "payload_only s1"
      and l1: "sm_lists s1 DETECT_SM_LIST_PMATCH = sm_lists s DETECT_SM_LIST_PMATCH @ [sm]"
      and t1: "type sm = DETECT_CONTENT"
      and f1: "flags (ctx sm) = (if negated then {DETECT_CONTENT_NEGATED} else {})"
      by blast
    let ?xs = "sm_lists s DETECT_SM_LIST_PMATCH"
    let ?pm = "(DETECT_SM_LIST_PMATCH, length ?xs)"
    have t: "fast_pattern_target s1 = Some ?pm"
      using p1 l1 t1 by (rule target_payload_only)
    from m obtain f where om: "option_setup m = DetectModifierSetup f"
      by (rule modifier_flag_cases)
    show ?thesis
    proof (cases negated)
      case True
      then have "DETECT_CONTENT_NEGATED \<in> flags (ctx (sm_at s1 ?pm))"
        using f1 by (simp add: sm_at_last [OF l1])
      then have "DetectFastPatternSetup s1 (Some ''only'') = (- 1, s1)"
        by (simp add: setup_on_target [OF t] setup_cd_only pcre_exec_only ctx_write_same)
      with c False show ?thesis by simp
    next
      case notneg: False
      let ?cd = "(ctx sm)\<lparr>flags := insert DETECT_CONTENT_FAST_PATTERN
          (insert DETECT_CONTENT_FAST_PATTERN_ONLY (flags (ctx sm)))\<rparr>"
      let ?s2 = "ctx_write s1 ?pm ?cd"
      have fs: "DetectFastPatternSetup s1 (Some ''only'') = (0, ?s2)"
        using f1 notneg
        by (simp add: setup_on_target [OF t] setup_cd_only pcre_exec_only sm_at_last [OF l1]
            has_relative_modifier_def)
      have p2: "payload_only ?s2" using p1 by (rule payload_only_ctx_write)
      have l2: "sm_lists ?s2 DETECT_SM_LIST_PMATCH = ?xs @ [sm\<lparr>ctx := ?cd\<rparr>]"
        using l1 by (rule ctx_write_last)
      have "DetectModifierSetup f ?s2 = (- 1, ?s2)"
        by (subst modifier_step [OF p2 l2]) (simp_all add: t1)
      with c False fs om show ?thesis by simp
    qed
  qed
qed

text \<open>
  Claim C5. A \<open>fast_pattern:only\<close> directive whose target carries distance, within, offset
  or depth returns \<open>-1\<close> and writes nothing; and a rule in which a content keyword is
  followed by one of these modifiers and by \<open>fast_pattern:only\<close>, in either order, does not
  load (\<open>SigInit\<close> gives no signature), whatever precedes and follows the three options.
\<close>

theorem only_with_relative_modifier_is_rejected:
  "(fast_pattern_target s = Some pm \<and> has_relative_modifier (ctx (sm_at s pm)) \<and>
      fst (pcre_exec arg) = 2 \<longrightarrow> DetectFastPatternSetup s (Some arg) = (- 1, s)) \<and>
   (is_relative_modifier m \<longrightarrow>
      SigInit sid (pre @ [OptContent negated bytes, m, OptFastPattern (Some ''only'')] @ post) = None \<and>
      SigInit sid (pre @ [OptContent negated bytes, OptFastPattern (Some ''only''), m] @ post) = None)"
proof (intro conjI impI)
  assume "fast_pattern_target s = Some pm \<and> has_relative_modifier (ctx (sm_at s pm)) \<and>
      fst (pcre_exec arg) = 2"
  then show "DetectFastPatternSetup s (Some arg) = (- 1, s)"
    by (simp add: setup_only_with_modifier)
next
  assume m: "is_relative_modifier m"
  show "SigInit sid (pre @ [OptContent negated bytes, m, OptFastPattern (Some ''only'')] @ post) = None"
  proof (cases "options_setup pre (SigAlloc sid)")
    case None
    then show ?thesis by (simp add: SigInit_def options_setup_append)
  next
    case (Some s0)
    with payload_only_alloc have "payload_only s0" by (rule payload_only_options)
    from content_modifier_only_rejected [OF this m] Some show ?thesis
      by (simp add: SigInit_def options_setup_append)
  qed
  show "SigInit sid (pre @ [OptContent negated bytes, OptFastPattern (Some ''only''), m] @ post) = None"
  proof (cases "options_setup pre (SigAlloc sid)")
    case None
    then show ?thesis by (simp add: SigInit_def options_setup_append)
  next
    case (Some s0)
    with payload_only_alloc have "payload_only s0" by (rule payload_only_options)
    from content_only_modifier_rejected [OF this m] Some show ?thesis
      by (simp add: SigInit_def options_setup_append)
  qed
qed

theorem only_with_relative_modifier_is_rejected_witness:
  "fast_pattern_target (payload_signature
       [payload_keyword 0 ''one'' {}, payload_keyword 1 ''two'' {DETECT_CONTENT_DISTANCE}]) =
     Some (DETECT_SM_LIST_PMATCH, 1) \<and>
   has_relative_modifier (ctx (payload_keyword 1 ''two'' {DETECT_CONTENT_DISTANCE})) \<and>
   fst (pcre_exec ''only'') = 2 \<and>
   DetectFastPatternSetup (payload_signature
       [payload_keyword 0 ''one'' {}, payload_keyword 1 ''two'' {DETECT_CONTENT_DISTANCE}])
       (Some ''only'') =
     (- 1, payload_signature
       [payload_keyword 0 ''one'' {}, payload_keyword 1 ''two'' {DETECT_CONTENT_DISTANCE}]) \<and>
   is_relative_modifier OptDistance \<and>
   SigInit 1 [OptContent False ''one'', OptContent False ''two'', OptDistance,
              OptFastPattern (Some ''only'')] = None \<and>
   SigInit 1 [OptContent False ''one'', OptContent False ''two'', OptFastPattern (Some ''only''),
              OptDistance] = None"
  using only_with_relative_modifier_is_rejected
    [of "payload_signature
       [payload_keyword 0 ''one'' {}, payload_keyword 1 ''two'' {DETECT_CONTENT_DISTANCE}]"
      "(DETECT_SM_LIST_PMATCH, 1)" "''only''" OptDistance 1 "[OptContent False ''one'']"
      False "''two''" "[]"]
  by (simp add: sig_eval pcre_exec_only has_relative_modifier_def is_relative_modifier_def)

text \<open>
  The same holds for a negated keyword and any form of the directive, in either order: with
  the modifier first, \<open>DetectFastPatternSetup\<close> refuses the directive (its first check);
  with the directive first, the modifier's setup, as modelled from the spec, refuses the
  modifier.
\<close>

lemma negated_directive_modifier_rejected:
  assumes p: "payload_only s" and m: "is_relative_modifier m"
  shows "options_setup ([OptContent True bytes, OptFastPattern arg, m] @ post) s = None"
proof -
  obtain r s1 where c: "DetectContentSetup s True bytes = (r, s1)"
    by (cases "DetectContentSetup s True bytes")
  show ?thesis
  proof (cases "r < 0")
    case True
    with c show ?thesis by simp
  next
    case False
    from content_step [OF p c False] obtain sm where
      p1: "payload_only s1"
      and l1: "sm_lists s1 DETECT_SM_LIST_PMATCH = sm_lists s DETECT_SM_LIST_PMATCH @ [sm]"
      and t1: "type sm = DETECT_CONTENT"
      and f1: "flags (ctx sm) = {DETECT_CONTENT_NEGATED}"
      by auto
    let ?xs = "sm_lists s DETECT_SM_LIST_PMATCH"
    let ?pm = "(DETECT_SM_LIST_PMATCH, length ?xs)"
    have t: "fast_pattern_target s1 = Some ?pm"
      using p1 l1 t1 by (rule target_payload_only)
    from m obtain f where om: "option_setup m = DetectModifierSetup f"
      by (rule modifier_flag_cases)
    obtain r2 cd' where cd: "DetectFastPatternSetup_cd (ctx sm) arg = (r2, cd')"
      by (cases "DetectFastPatternSetup_cd (ctx sm) arg")
    have fs: "DetectFastPatternSetup s1 arg = (r2, ctx_write s1 ?pm cd')"
      by (simp add: setup_on_target [OF t] sm_at_last [OF l1] cd)
    from setup_cd_cases [OF cd] show ?thesis
    proof
      assume "r2 = - 1 \<and> cd' = ctx sm"
      with c False fs show ?thesis by simp
    next
      assume ok: "r2 = 0 \<and> DETECT_CONTENT_FAST_PATTERN \<in> flags cd' \<and>
        flags (ctx sm) \<subseteq> flags cd' \<and> content cd' = content (ctx sm) \<and>
        content_len cd' = content_len (ctx sm)"
      let ?s2 = "ctx_write s1 ?pm cd'"
      have p2: "payload_only ?s2" using p1 by (rule payload_only_ctx_write)
      have l2: "sm_lists ?s2 DETECT_SM_LIST_PMATCH = ?xs @ [sm\<lparr>ctx := cd'\<rparr>]"
        using l1 by (rule ctx_write_last)
      have "DetectModifierSetup f ?s2 = (- 1, ?s2)"
        using ok f1 by (subst modifier_step [OF p2 l2]) (auto simp: t1)
      with c False fs ok om show ?thesis by simp
    qed
  qed
qed

lemma negated_modifier_directive_rejected:
  assumes p: "payload_only s" and m: "is_relative_modifier m"
  shows "options_setup ([OptContent True bytes, m, OptFastPattern arg] @ post) s = None"
proof -
  obtain r s1 where c: "DetectContentSetup s True bytes = (r, s1)"
    by (cases "DetectContentSetup s True bytes")
  show ?thesis
  proof (cases "r < 0")
    case True
    with c show ?thesis by simp
  next
    case False
    from content_step [OF p c False] obtain sm where
      p1: "payload_only s1"
      and l1: "sm_lists s1 DETECT_SM_LIST_PMATCH = sm_lists s DETECT_SM_LIST_PMATCH @ [sm]"
      and t1: "type sm = DETECT_CONTENT"
      and f1: "flags (ctx sm) = {DETECT_CONTENT_NEGATED}"
      by auto
    let ?xs = "sm_lists s DETECT_SM_LIST_PMATCH"
    let ?pm = "(DETECT_SM_LIST_PMATCH, length ?xs)"
    from m obtain f where om: "option_setup m = DetectModifierSetup f"
      and f: "f \<in> {DETECT_CONTENT_DISTANCE, DETECT_CONTENT_WITHIN, DETECT_CONTENT_OFFSET,
        DETECT_CONTENT_DEPTH}"
      by (rule modifier_flag_cases)
    let ?cd = "(ctx sm)\<lparr>flags := insert f (flags (ctx sm))\<rparr>"
    let ?s2 = "ctx_write s1 ?pm ?cd"
    have ms: "option_setup m s1 = (0, ?s2)"
      using f1 by (simp add: om modifier_step [OF p1 l1 t1])
    have p2: "payload_only ?s2" using p1 by (rule payload_only_ctx_write)
    have l2: "sm_lists ?s2 DETECT_SM_LIST_PMATCH = ?xs @ [sm\<lparr>ctx := ?cd\<rparr>]"
      using l1 by (rule ctx_write_last)
    have t2: "fast_pattern_target ?s2 = Some ?pm"
      using p2 l2 by (rule target_payload_only) (simp add: t1)
    have cd2: "ctx (sm_at ?s2 ?pm) = ?cd"
      by (simp add: sm_at_last [OF l2])
    have neg2: "DETECT_CONTENT_NEGATED \<in> flags ?cd"
      using f1 by simp
    have rel2: "has_relative_modifier ?cd"
      using f by (auto simp: has_relative_modifier_def)
    have rej: "DetectFastPatternSetup_cd ?cd arg = (- 1, ?cd)"
      using neg2 rel2 by (rule setup_cd_negated_relative)
    have same: "ctx_write ?s2 ?pm ?cd = ?s2"
      using ctx_write_same [of ?s2 ?pm] by (simp only: cd2)
    have "DetectFastPatternSetup ?s2 arg = (- 1, ?s2)"
      by (simp only: setup_on_target [OF t2] cd2 rej same fst_conv snd_conv)
    with c False ms show ?thesis by simp
  qed
qed

lemma negated_keyword_with_modifier_never_loads:
  assumes m: "is_relative_modifier m"
  shows "SigInit sid (pre @ [OptContent True bytes, OptFastPattern arg, m] @ post) = None"
    and "SigInit sid (pre @ [OptContent True bytes, m, OptFastPattern arg] @ post) = None"
proof -
  show "SigInit sid (pre @ [OptContent True bytes, OptFastPattern arg, m] @ post) = None"
  proof (cases "options_setup pre (SigAlloc sid)")
    case None
    then show ?thesis by (simp add: SigInit_def options_setup_append)
  next
    case (Some s0)
    with payload_only_alloc have "payload_only s0" by (rule payload_only_options)
    from negated_directive_modifier_rejected [OF this m] Some show ?thesis
      by (simp add: SigInit_def options_setup_append)
  qed
  show "SigInit sid (pre @ [OptContent True bytes, m, OptFastPattern arg] @ post) = None"
  proof (cases "options_setup pre (SigAlloc sid)")
    case None
    then show ?thesis by (simp add: SigInit_def options_setup_append)
  next
    case (Some s0)
    with payload_only_alloc have "payload_only s0" by (rule payload_only_options)
    from negated_modifier_directive_rejected [OF this m] Some show ?thesis
      by (simp add: SigInit_def options_setup_append)
  qed
qed

lemma bare_cd:
  "\<not> (DETECT_CONTENT_NEGATED \<in> flags cd \<and> has_relative_modifier cd) \<Longrightarrow>
   DetectFastPatternSetup_cd cd None = (0, cd\<lparr>flags := insert DETECT_CONTENT_FAST_PATTERN (flags cd)\<rparr>)"
  by (auto simp: DetectFastPatternSetup_cd_def)

lemma content_bare_step:
  assumes p: "payload_only s"
    and c: "options_setup [OptContent negated bytes, OptFastPattern None] s = Some s2"
  shows "payload_only s2 \<and>
     fast_pattern_marks s2 DETECT_SM_LIST_PMATCH =
       fast_pattern_marks s DETECT_SM_LIST_PMATCH @ [True]"
proof -
  obtain r s1 where c1: "DetectContentSetup s negated bytes = (r, s1)"
    by (cases "DetectContentSetup s negated bytes")
  with c have nr: "\<not> r < 0" by (auto split: if_splits)
  from content_step [OF p c1 nr] obtain sm where
    p1: "payload_only s1"
    and l1: "sm_lists s1 DETECT_SM_LIST_PMATCH = sm_lists s DETECT_SM_LIST_PMATCH @ [sm]"
    and t1: "type sm = DETECT_CONTENT"
    and f1: "flags (ctx sm) = (if negated then {DETECT_CONTENT_NEGATED} else {})"
    by blast
  let ?xs = "sm_lists s DETECT_SM_LIST_PMATCH"
  let ?pm = "(DETECT_SM_LIST_PMATCH, length ?xs)"
  let ?cd = "(ctx sm)\<lparr>flags := insert DETECT_CONTENT_FAST_PATTERN (flags (ctx sm))\<rparr>"
  have t: "fast_pattern_target s1 = Some ?pm"
    using p1 l1 t1 by (rule target_payload_only)
  have "\<not> (DETECT_CONTENT_NEGATED \<in> flags (ctx sm) \<and> has_relative_modifier (ctx sm))"
    using f1 by (simp add: has_relative_modifier_def)
  then have "DetectFastPatternSetup s1 None = (0, ctx_write s1 ?pm ?cd)"
    by (simp add: setup_on_target [OF t] sm_at_last [OF l1] bare_cd)
  with c c1 nr have s2: "s2 = ctx_write s1 ?pm ?cd" by simp
  have l2: "sm_lists s2 DETECT_SM_LIST_PMATCH = ?xs @ [sm\<lparr>ctx := ?cd\<rparr>]"
    unfolding s2 using l1 by (rule ctx_write_last)
  show ?thesis
    using p1 by (simp add: s2 [symmetric] l2 fast_pattern_marks_def)
      (simp add: s2 payload_only_ctx_write)
qed

text \<open>
  Claim C1, as the code has it. An accepted directive stamps \<open>FAST_PATTERN\<close> on its target
  and clears no \<open>FAST_PATTERN\<close> flag that was set before, and it adds and removes no
  keyword; so the flag is not exclusive: when a rule of two content keywords, each followed
  by its own bare \<open>fast_pattern\<close>, has loaded, both keywords are flagged.
\<close>

theorem fast_pattern_flags_accumulate:
  "(DetectFastPatternSetup s arg = (0, s') \<longrightarrow>
      (\<exists>pm. fast_pattern_target s = Some pm \<and>
         DETECT_CONTENT_FAST_PATTERN \<in> flags (ctx (sm_at s' pm))) \<and>
      length (sm_lists s' l) = length (sm_lists s l) \<and>
      (\<forall>i < length (sm_lists s l).
         DETECT_CONTENT_FAST_PATTERN \<in> flags (ctx (sm_lists s l ! i)) \<longrightarrow>
         DETECT_CONTENT_FAST_PATTERN \<in> flags (ctx (sm_lists s' l ! i)))) \<and>
   (SigInit sid [OptContent n1 b1, OptFastPattern None, OptContent n2 b2, OptFastPattern None] =
      Some s2 \<longrightarrow>
      fast_pattern_marks s2 DETECT_SM_LIST_PMATCH = [True, True])"
proof (intro conjI impI)
  assume ok: "DetectFastPatternSetup s arg = (0, s')"
  then obtain pm cd' where target: "fast_pattern_target s = Some pm"
    and cd: "DetectFastPatternSetup_cd (ctx (sm_at s pm)) arg = (0, cd')"
    and s': "s' = ctx_write s pm cd'"
    by (rule setup_ok_cases)
  from setup_cd_cases [OF cd] have fp: "DETECT_CONTENT_FAST_PATTERN \<in> flags cd'"
    and sub: "flags (ctx (sm_at s pm)) \<subseteq> flags cd'"
    by simp_all
  show "\<exists>pm. fast_pattern_target s = Some pm \<and>
         DETECT_CONTENT_FAST_PATTERN \<in> flags (ctx (sm_at s' pm))"
    using target fp by (auto simp: s' ctx_write_read [OF target_valid [OF target]])
  show "length (sm_lists s' l) = length (sm_lists s l)"
    by (simp add: s' ctx_write_length)
  show "\<forall>i < length (sm_lists s l).
         DETECT_CONTENT_FAST_PATTERN \<in> flags (ctx (sm_lists s l ! i)) \<longrightarrow>
         DETECT_CONTENT_FAST_PATTERN \<in> flags (ctx (sm_lists s' l ! i))"
    using sub fp by (auto simp: s' ctx_write_nth_ctx sm_at_def)
next
  assume load: "SigInit sid [OptContent n1 b1, OptFastPattern None, OptContent n2 b2,
      OptFastPattern None] = Some s2"
  then have run: "options_setup ([OptContent n1 b1, OptFastPattern None] @
      [OptContent n2 b2, OptFastPattern None]) (SigAlloc sid) = Some s2"
    by (simp add: SigInit_def)
  then obtain s1 where
    first: "options_setup [OptContent n1 b1, OptFastPattern None] (SigAlloc sid) = Some s1"
    and second: "options_setup [OptContent n2 b2, OptFastPattern None] s1 = Some s2"
    unfolding options_setup_append by (auto split: option.splits)
  from content_bare_step [OF payload_only_alloc first]
  have p1: "payload_only s1" and m1: "fast_pattern_marks s1 DETECT_SM_LIST_PMATCH = [True]"
    by (simp_all add: fast_pattern_marks_def SigAlloc_def)
  from content_bare_step [OF p1 second] m1
  show "fast_pattern_marks s2 DETECT_SM_LIST_PMATCH = [True, True]"
    by simp
qed

theorem fast_pattern_flags_accumulate_witness:
  "DetectFastPatternSetup (payload_signature
       [payload_keyword 0 ''/one/'' {DETECT_CONTENT_FAST_PATTERN}, payload_keyword 1 ''boo'' {}]) None =
     (0, payload_signature
       [payload_keyword 0 ''/one/'' {DETECT_CONTENT_FAST_PATTERN},
        payload_keyword 1 ''boo'' {DETECT_CONTENT_FAST_PATTERN}]) \<and>
   fast_pattern_target (payload_signature
       [payload_keyword 0 ''/one/'' {DETECT_CONTENT_FAST_PATTERN}, payload_keyword 1 ''boo'' {}]) =
     Some (DETECT_SM_LIST_PMATCH, 1) \<and>
   fast_pattern_marks (payload_signature
       [payload_keyword 0 ''/one/'' {DETECT_CONTENT_FAST_PATTERN}, payload_keyword 1 ''boo'' {}])
       DETECT_SM_LIST_PMATCH = [True, False] \<and>
   SigInit 1 [OptContent False ''/one/'', OptFastPattern None,
              OptContent False ''boo'', OptFastPattern None] =
     Some (payload_signature
       [payload_keyword 0 ''/one/'' {DETECT_CONTENT_FAST_PATTERN},
        payload_keyword 1 ''boo'' {DETECT_CONTENT_FAST_PATTERN}]) \<and>
   fast_pattern_marks (payload_signature
       [payload_keyword 0 ''/one/'' {DETECT_CONTENT_FAST_PATTERN},
        payload_keyword 1 ''boo'' {DETECT_CONTENT_FAST_PATTERN}]) DETECT_SM_LIST_PMATCH =
     [True, True]"
proof -
  let ?s = "payload_signature
       [payload_keyword 0 ''/one/'' {DETECT_CONTENT_FAST_PATTERN}, payload_keyword 1 ''boo'' {}]"
  let ?s2 = "payload_signature
       [payload_keyword 0 ''/one/'' {DETECT_CONTENT_FAST_PATTERN},
        payload_keyword 1 ''boo'' {DETECT_CONTENT_FAST_PATTERN}]"
  have step: "DetectFastPatternSetup ?s None = (0, ?s2)"
    by (simp add: DetectFastPatternSetup_def DetectFastPatternSetup_cd_def
        has_relative_modifier_def SigMatchGetLastSMFromLists_def fp_pairs_def sm_at_def
        ctx_write_def payload_signature_def payload_keyword_def)
  have load: "SigInit 1 [OptContent False ''/one/'', OptFastPattern None,
              OptContent False ''boo'', OptFastPattern None] = Some ?s2"
    by (simp add: SigInit_def SigAlloc_def DetectContentSetup_def DetectFastPatternSetup_def
      DetectFastPatternSetup_cd_def has_relative_modifier_def SigMatchGetLastSMFromLists_def
      fp_pairs_def sm_at_def ctx_write_def payload_signature_def payload_keyword_def)
  have target: "fast_pattern_target ?s = Some (DETECT_SM_LIST_PMATCH, 1)"
    by (simp add: sig_eval)
  have before: "fast_pattern_marks ?s DETECT_SM_LIST_PMATCH = [True, False]"
    by (simp add: fast_pattern_marks_def payload_signature_def payload_keyword_def)
  from fast_pattern_flags_accumulate
    [of ?s None ?s2 DETECT_SM_LIST_PMATCH 1 False "''/one/''" False "''boo''" ?s2] load
  have "fast_pattern_marks ?s2 DETECT_SM_LIST_PMATCH = [True, True]"
    by simp
  with step load target before show ?thesis by simp
qed

text \<open>
  Claim C1 as stated fails on the rule of \<open>DetectFastPatternTest02\<close>,
  \<open>content:"/one/"; fast_pattern; content:boo; fast_pattern;\<close>: after loading, two patterns
  of the payload list carry \<open>FAST_PATTERN\<close> (the test passes only if every content keyword
  does).
\<close>

theorem exclusivity_counterexample:
  "SigInit 1 [OptContent False ''/one/'', OptFastPattern None,
              OptContent False ''boo'', OptFastPattern None] =
     Some (payload_signature
       [payload_keyword 0 ''/one/'' {DETECT_CONTENT_FAST_PATTERN},
        payload_keyword 1 ''boo'' {DETECT_CONTENT_FAST_PATTERN}]) \<and>
   fast_pattern_marks (payload_signature
       [payload_keyword 0 ''/one/'' {DETECT_CONTENT_FAST_PATTERN},
        payload_keyword 1 ''boo'' {DETECT_CONTENT_FAST_PATTERN}]) DETECT_SM_LIST_PMATCH =
     [True, True]"
  by (simp add: SigInit_def SigAlloc_def DetectContentSetup_def DetectFastPatternSetup_def
      DetectFastPatternSetup_cd_def has_relative_modifier_def SigMatchGetLastSMFromLists_def
      fp_pairs_def sm_at_def ctx_write_def payload_signature_def payload_keyword_def
      fast_pattern_marks_def)

section \<open>The pattern matcher: proofs\<close>

lemma starts_with_iff: "starts_with needle buf = (\<exists>post. buf = needle @ post)"
  by (induction needle buf rule: starts_with.induct) auto

lemma occurs_in_iff: "occurs_in needle buf = (\<exists>pre post. buf = pre @ needle @ post)"
proof (induction buf)
  case Nil
  then show ?case by (simp add: starts_with_iff)
next
  case (Cons b bs)
  show ?case
  proof
    assume "occurs_in needle (b # bs)"
    then consider "starts_with needle (b # bs)" | "occurs_in needle bs"
      by (auto split: if_splits)
    then show "\<exists>pre post. b # bs = pre @ needle @ post"
    proof cases
      case 1
      then obtain post where "b # bs = needle @ post" by (auto simp: starts_with_iff)
      then have "b # bs = [] @ needle @ post" by simp
      then show ?thesis by blast
    next
      case 2
      with Cons.IH obtain pre post where "bs = pre @ needle @ post" by auto
      then have "b # bs = (b # pre) @ needle @ post" by simp
      then show ?thesis by blast
    qed
  next
    assume "\<exists>pre post. b # bs = pre @ needle @ post"
    then obtain pre post where eq: "b # bs = pre @ needle @ post" by auto
    show "occurs_in needle (b # bs)"
    proof (cases pre)
      case Nil
      with eq have "starts_with needle (b # bs)" by (auto simp: starts_with_iff)
      then show ?thesis by simp
    next
      case (Cons p ps)
      with eq have "bs = ps @ needle @ post" by simp
      with Cons.IH have "occurs_in needle bs" by auto
      then show ?thesis by simp
    qed
  qed
qed

lemma Search_iff: "(sid \<in> Search m buf) = (\<exists>needle. (needle, sid) \<in> set m \<and> occurs_in needle buf)"
  by (induction m buf rule: Search.induct) auto

lemma selected_needles_set:
  "set (selected_needles sid sms) =
     (\<lambda>sm. (fp_needle (ctx sm), sid)) ` set (filter (\<lambda>sm. DETECT_CONTENT_FAST_PATTERN \<in> flags (ctx sm)) sms)"
  by (induction sms) auto

lemma Build_set:
  "set (Build grp l) =
     (\<Union>s \<in> set grp. (\<lambda>sm. (fp_needle (ctx sm), sig_id s)) ` set (selected_patterns s l))"
  by (induction grp) (auto simp: selected_needles_set selected_patterns_def)

text \<open>
  Claim C2. Let a signature of the group have exactly one selected pattern in a context, not
  negated, and let the ids of the group's signatures be distinct. Then the search of that
  context's matcher reports the signature's id exactly when the pattern's needle (the chop
  range when chopped, all bytes otherwise) occurs in the buffer, that is, when the buffer is
  some bytes, then the needle, then some bytes.
\<close>

theorem search_reports_selected_pattern:
  assumes member: "s \<in> set grp"
    and ids: "distinct (map sig_id grp)"
    and selected: "selected_patterns s l = [sm]"
    and positive: "DETECT_CONTENT_NEGATED \<notin> flags (ctx sm)"
  shows "(sig_id s \<in> Search (Build grp l) buf) = occurs_in (fp_needle (ctx sm)) buf \<and>
         occurs_in (fp_needle (ctx sm)) buf = (\<exists>pre post. buf = pre @ fp_needle (ctx sm) @ post)"
proof
  have same: "s' = s" if "s' \<in> set grp" and "sig_id s' = sig_id s" for s'
    using that member ids by (auto simp: distinct_map inj_on_def)
  show "(sig_id s \<in> Search (Build grp l) buf) = occurs_in (fp_needle (ctx sm)) buf"
  proof
    assume "sig_id s \<in> Search (Build grp l) buf"
    then obtain needle where n: "(needle, sig_id s) \<in> set (Build grp l)"
      and occ: "occurs_in needle buf"
      by (auto simp: Search_iff)
    from n obtain s' sm' where s': "s' \<in> set grp" and sm': "sm' \<in> set (selected_patterns s' l)"
      and needle: "needle = fp_needle (ctx sm')" and id: "sig_id s' = sig_id s"
      by (auto simp: Build_set)
    from s' id have "s' = s" by (rule same)
    with sm' selected have "sm' = sm" by simp
    with needle have "needle = fp_needle (ctx sm)" by simp
    with occ show "occurs_in (fp_needle (ctx sm)) buf" by simp
  next
    assume "occurs_in (fp_needle (ctx sm)) buf"
    moreover have "(fp_needle (ctx sm), sig_id s) \<in> set (Build grp l)"
      using member selected by (force simp: Build_set)
    ultimately show "sig_id s \<in> Search (Build grp l) buf"
      by (auto simp: Search_iff)
  qed
  show "occurs_in (fp_needle (ctx sm)) buf = (\<exists>pre post. buf = pre @ fp_needle (ctx sm) @ post)"
    by (rule occurs_in_iff)
qed

theorem search_reports_selected_pattern_witness:
  "payload_signature
       [payload_keyword 0 ''string1'' {},
        payload_keyword 1 ''strings4_imp'' {DETECT_CONTENT_FAST_PATTERN},
        payload_keyword 2 ''strings_string5'' {}] \<in>
     set [payload_signature
       [payload_keyword 0 ''string1'' {},
        payload_keyword 1 ''strings4_imp'' {DETECT_CONTENT_FAST_PATTERN},
        payload_keyword 2 ''strings_string5'' {}]] \<and>
   distinct (map sig_id [payload_signature
       [payload_keyword 0 ''string1'' {},
        payload_keyword 1 ''strings4_imp'' {DETECT_CONTENT_FAST_PATTERN},
        payload_keyword 2 ''strings_string5'' {}]]) \<and>
   selected_patterns (payload_signature
       [payload_keyword 0 ''string1'' {},
        payload_keyword 1 ''strings4_imp'' {DETECT_CONTENT_FAST_PATTERN},
        payload_keyword 2 ''strings_string5'' {}]) DETECT_SM_LIST_PMATCH =
     [payload_keyword 1 ''strings4_imp'' {DETECT_CONTENT_FAST_PATTERN}] \<and>
   DETECT_CONTENT_NEGATED \<notin>
     flags (ctx (payload_keyword 1 ''strings4_imp'' {DETECT_CONTENT_FAST_PATTERN})) \<and>
   fp_needle (ctx (payload_keyword 1 ''strings4_imp'' {DETECT_CONTENT_FAST_PATTERN})) =
     ''strings4_imp'' \<and>
   sig_id (payload_signature
       [payload_keyword 0 ''string1'' {},
        payload_keyword 1 ''strings4_imp'' {DETECT_CONTENT_FAST_PATTERN},
        payload_keyword 2 ''strings_string5'' {}]) \<in>
     Search (Build [payload_signature
       [payload_keyword 0 ''string1'' {},
        payload_keyword 1 ''strings4_imp'' {DETECT_CONTENT_FAST_PATTERN},
        payload_keyword 2 ''strings_string5'' {}]] DETECT_SM_LIST_PMATCH)
       ''right.  strings4_imp now here comes our dark knight strings5.'' \<and>
   occurs_in ''strings4_imp'' ''right.  strings4_imp now here comes our dark knight strings5.'' \<and>
   sig_id (payload_signature
       [payload_keyword 0 ''string1'' {},
        payload_keyword 1 ''strings4_imp'' {DETECT_CONTENT_FAST_PATTERN},
        payload_keyword 2 ''strings_string5'' {}]) \<notin>
     Search (Build [payload_signature
       [payload_keyword 0 ''string1'' {},
        payload_keyword 1 ''strings4_imp'' {DETECT_CONTENT_FAST_PATTERN},
        payload_keyword 2 ''strings_string5'' {}]] DETECT_SM_LIST_PMATCH)
       ''right.  strings5_imp now here comes our dark knight strings_string5.'' \<and>
   \<not> occurs_in ''strings4_imp''
       ''right.  strings5_imp now here comes our dark knight strings_string5.''"
proof -
  let ?sm = "payload_keyword 1 ''strings4_imp'' {DETECT_CONTENT_FAST_PATTERN}"
  let ?s = "payload_signature
       [payload_keyword 0 ''string1'' {}, ?sm, payload_keyword 2 ''strings_string5'' {}]"
  have sel: "selected_patterns ?s DETECT_SM_LIST_PMATCH = [?sm]"
    by (simp add: selected_patterns_def payload_signature_def payload_keyword_def)
  have pos: "DETECT_CONTENT_NEGATED \<notin> flags (ctx ?sm)"
    by (simp add: payload_keyword_def)
  have needle: "fp_needle (ctx ?sm) = ''strings4_imp''"
    by (simp add: fp_needle_def payload_keyword_def)
  have mem: "?s \<in> set [?s]" by simp
  have ids: "distinct (map sig_id [?s])" by simp
  have yes: "occurs_in ''strings4_imp''
      ''right.  strings4_imp now here comes our dark knight strings5.''"
    by simp
  have no: "\<not> occurs_in ''strings4_imp''
      ''right.  strings5_imp now here comes our dark knight strings_string5.''"
    by simp
  from search_reports_selected_pattern [OF mem ids sel pos,
      of "''right.  strings4_imp now here comes our dark knight strings5.''"]
    search_reports_selected_pattern [OF mem ids sel pos,
      of "''right.  strings5_imp now here comes our dark knight strings_string5.''"]
    yes no sel pos needle
  show ?thesis by simp
qed

end
